theory Spec2Isabelle
  imports Complex_Main "HOL-Library.Word"
begin

section \<open>Data model\<close>

text \<open>
  The three generator scripts (\<^verbatim>\<open>building_generator.py\<close>, \<^verbatim>\<open>building_generator_v2.py\<close>,
  \<^verbatim>\<open>building_generator_v3.py\<close>) share their geometry helpers. A vertex is a Python
  3-tuple of numbers; Python's floats are modelled as real numbers, so the rounding of
  float arithmetic is outside the model. Triangle indices are Python's unbounded
  integers. A function that can raise returns \<open>error + 'a\<close>, with \<open>Inl\<close> for the exception.
\<close>

type_synonym vertex = "real \<times> real \<times> real"

text \<open>The Python exceptions the scripts can raise, with the name of each class.\<close>

datatype error = ZeroDivisionError | IndexError | ValueError | StructError | OverflowError


text \<open>\<^verbatim>\<open>range(n)\<close> for an integer \<open>n\<close>: empty when \<open>n \<le> 0\<close>.\<close>

definition py_range :: "int \<Rightarrow> int list" where
  "py_range n = [0..n - 1]"

text \<open>\<^verbatim>\<open>a / b\<close> with an integer divisor: true division, raising on a zero divisor.\<close>

definition py_truediv :: "real \<Rightarrow> int \<Rightarrow> error + real" where
  "py_truediv a b = (if b = 0 then Inl ZeroDivisionError else Inr (a / real_of_int b))"

text \<open>\<^verbatim>\<open>xs[i]\<close>: a negative index counts from the end, an index out of range raises.\<close>

definition py_pos :: "nat \<Rightarrow> int \<Rightarrow> error + nat" where
  "py_pos n i =
     (let j = (if i < 0 then i + int n else i)
      in if 0 \<le> j \<and> j < int n then Inr (nat j) else Inl IndexError)"

section \<open>Geometry helpers\<close>

text \<open>\<^verbatim>\<open>create_box\<close>, the same function in all three scripts.\<close>

definition box_indices :: "int list" where
  "box_indices =
     [0,1,2,2,3,0,
      1,5,6,6,2,1,
      5,4,7,7,6,5,
      4,0,3,3,7,4,
      3,2,6,6,7,3,
      4,5,1,1,0,4]"

definition create_box ::
  "real \<Rightarrow> real \<Rightarrow> real \<Rightarrow> real \<Rightarrow> real \<Rightarrow> real \<Rightarrow> vertex list \<times> int list" where
  "create_box w h d tx ty tz =
     (let hw = w / 2; hh = h / 2; hd = d / 2;
          verts = [(- hw, - hh, hd), (hw, - hh, hd), (hw, hh, hd), (- hw, hh, hd),
                   (- hw, - hh, - hd), (hw, - hh, - hd), (hw, hh, - hd), (- hw, hh, - hd)];
          verts = map (\<lambda>(x, y, z). (x + tx, y + ty, z + tz)) verts
      in (verts, box_indices))"

text \<open>
  \<^verbatim>\<open>compute_normals\<close> (v2 and v3, the same text). The first loop walks the index list in
  strides of three: unpacking a last slice of one or two indices raises \<^verbatim>\<open>ValueError\<close>,
  reading a vertex out of range raises \<^verbatim>\<open>IndexError\<close>. The cross product of the two edge
  vectors is added to the accumulator of each of the three indices.
\<close>

fun face_normal :: "vertex \<Rightarrow> vertex \<Rightarrow> vertex \<Rightarrow> vertex" where
  "face_normal (x0, y0, z0) (x1, y1, z1) (x2, y2, z2) =
     (let ux = x1 - x0; uy = y1 - y0; uz = z1 - z0;
          vx = x2 - x0; vy = y2 - y0; vz = z2 - z0;
          nx = uy * vz - uz * vy;
          ny = uz * vx - ux * vz;
          nz = ux * vy - uy * vx
      in (nx, ny, nz))"

fun vadd :: "vertex \<Rightarrow> vertex \<Rightarrow> vertex" where
  "vadd (a, b, c) (nx, ny, nz) = (a + nx, b + ny, c + nz)"

definition bump :: "vertex \<Rightarrow> nat \<Rightarrow> vertex list \<Rightarrow> vertex list" where
  "bump n idx normals = normals[idx := vadd (normals ! idx) n]"

fun accumulate :: "vertex list \<Rightarrow> int list \<Rightarrow> vertex list \<Rightarrow> error + vertex list" where
  "accumulate vertices (i0 # i1 # i2 # rest) normals =
     (case py_pos (length vertices) i0 of Inl e \<Rightarrow> Inl e | Inr k0 \<Rightarrow>
      case py_pos (length vertices) i1 of Inl e \<Rightarrow> Inl e | Inr k1 \<Rightarrow>
      case py_pos (length vertices) i2 of Inl e \<Rightarrow> Inl e | Inr k2 \<Rightarrow>
        (let n = face_normal (vertices ! k0) (vertices ! k1) (vertices ! k2)
         in accumulate vertices rest (bump n k2 (bump n k1 (bump n k0 normals)))))"
| "accumulate vertices [] normals = Inr normals"
| "accumulate vertices _ normals = Inl ValueError"

text \<open>The second loop: each accumulator divided by its length plus \<^verbatim>\<open>1e-6\<close>.\<close>

fun unit_normal :: "vertex \<Rightarrow> vertex" where
  "unit_normal (a, b, c) =
     (let l = sqrt (a ^ 2 + b ^ 2 + c ^ 2) + 1 / 1000000
      in (a / l, b / l, c / l))"

definition compute_normals :: "vertex list \<Rightarrow> int list \<Rightarrow> error + vertex list" where
  "compute_normals vertices indices =
     (case accumulate vertices indices (map (\<lambda>_. (0, 0, 0)) vertices) of
        Inl e \<Rightarrow> Inl e
      | Inr normals \<Rightarrow> Inr (map unit_normal normals))"

section \<open>Mesh aggregation\<close>

text \<open>
  \<^verbatim>\<open>add(v, i, store_v, store_i)\<close> of \<^verbatim>\<open>build_structure\<close> (v3) extends the two lists it is
  given in place; the model takes the pair \<open>(v, i)\<close> that \<^verbatim>\<open>create_box\<close> returned and the
  pair of lists, and returns the extended pair.
\<close>

fun add :: "vertex list \<times> int list \<Rightarrow> vertex list \<times> int list \<Rightarrow> vertex list \<times> int list" where
  "add (v, i) (store_v, store_i) =
     (let offset = int (length store_v)
      in (store_v @ v, store_i @ map (\<lambda>idx. idx + offset) i))"

text \<open>
  \<^verbatim>\<open>add_mesh(v, i)\<close> of v2 works on the module's \<^verbatim>\<open>all_vertices\<close>, \<^verbatim>\<open>all_indices\<close> and the
  running \<^verbatim>\<open>offset\<close>; the first script inlines the same three statements with
  \<^verbatim>\<open>vertex_offset\<close>.
\<close>

record accum =
  all_vertices :: "vertex list"
  all_indices :: "int list"
  offset :: int

definition accum_init :: accum where
  "accum_init = \<lparr>all_vertices = [], all_indices = [], offset = 0\<rparr>"

fun add_mesh :: "vertex list \<times> int list \<Rightarrow> accum \<Rightarrow> accum" where
  "add_mesh (v, i) a =
     \<lparr>all_vertices = all_vertices a @ v,
      all_indices = all_indices a @ map (\<lambda>idx. idx + offset a) i,
      offset = offset a + int (length v)\<rparr>"

section \<open>Structural layout\<close>

text \<open>
  The module-level parameters of the scripts, with the values the source gives them. The
  first script has no bracing, core or wall, and v3 has no bracing. The grid resolution
  (\<^verbatim>\<open>grid_size\<close>, a module-level constant 5 in the first two scripts, the argument of
  \<^verbatim>\<open>build_structure\<close> in v3, called with \<^verbatim>\<open>grid_L0 = 5\<close> and \<^verbatim>\<open>grid_L1 = 3\<close>) is an argument
  of the model's functions.
\<close>

record params =
  floors :: int
  floor_height :: real
  building_width :: real
  column_size :: real
  beam_height :: real
  beam_width :: real
  slab_thickness :: real
  brace_thickness :: real
  core_size :: real
  wall_thickness :: real

definition source_params :: params where
  "source_params =
     \<lparr>floors = 5, floor_height = 35 / 10, building_width = 20,
      column_size = 4 / 10, beam_height = 5 / 10, beam_width = 4 / 10,
      slab_thickness = 3 / 10, brace_thickness = 2 / 10, core_size = 4,
      wall_thickness = 3 / 10\<rparr>"

text \<open>The boxes the loops create, each the \<^verbatim>\<open>create_box\<close> call of the source.\<close>

definition slab_box :: "params \<Rightarrow> real \<Rightarrow> vertex list \<times> int list" where
  "slab_box p y = create_box (building_width p) (slab_thickness p) (building_width p) 0 y 0"

definition spatial_box :: "params \<Rightarrow> real \<Rightarrow> vertex list \<times> int list" where
  "spatial_box p y =
     create_box (building_width p * (9 / 10)) (floor_height p * (8 / 10))
       (building_width p * (9 / 10)) 0 (y + floor_height p / 2) 0"

definition column_box :: "params \<Rightarrow> real \<Rightarrow> real \<Rightarrow> int \<Rightarrow> int \<Rightarrow> vertex list \<times> int list" where
  "column_box p spacing y gx gz =
     (let x = - building_width p / 2 + real_of_int gx * spacing;
          z = - building_width p / 2 + real_of_int gz * spacing
      in create_box (column_size p) (floor_height p) (column_size p)
           x (y + floor_height p / 2) z)"

definition beam_x_box :: "params \<Rightarrow> real \<Rightarrow> real \<Rightarrow> int \<Rightarrow> int \<Rightarrow> vertex list \<times> int list" where
  "beam_x_box p spacing y gz gx =
     (let z = - building_width p / 2 + real_of_int gz * spacing;
          xs = - building_width p / 2 + real_of_int gx * spacing;
          xe = xs + spacing;
          mx = (xs + xe) / 2
      in create_box spacing (beam_height p) (beam_width p)
           mx (y + floor_height p - beam_height p / 2) z)"

definition beam_z_box :: "params \<Rightarrow> real \<Rightarrow> real \<Rightarrow> int \<Rightarrow> int \<Rightarrow> vertex list \<times> int list" where
  "beam_z_box p spacing y gx gz =
     (let x = - building_width p / 2 + real_of_int gx * spacing;
          zs = - building_width p / 2 + real_of_int gz * spacing;
          ze = zs + spacing;
          mz = (zs + ze) / 2
      in create_box (beam_width p) (beam_height p) spacing
           x (y + floor_height p - beam_height p / 2) mz)"

definition brace_box :: "params \<Rightarrow> real \<Rightarrow> real \<Rightarrow> vertex list \<times> int list" where
  "brace_box p spacing y =
     (let x = - building_width p / 2 + spacing / 2;
          z = - building_width p / 2 + spacing / 2
      in create_box (brace_thickness p) (floor_height p) (brace_thickness p)
           x (y + floor_height p / 2) z)"

definition wall_box :: "params \<Rightarrow> int \<Rightarrow> vertex list \<times> int list" where
  "wall_box p f =
     (let y = real_of_int f * floor_height p + floor_height p / 2
      in create_box (wall_thickness p) (floor_height p) (building_width p)
           (- building_width p / 2) y 0)"

definition core_box :: "params \<Rightarrow> int \<Rightarrow> vertex list \<times> int list" where
  "core_box p f =
     (let y = real_of_int f * floor_height p + floor_height p / 2
      in create_box (core_size p) (floor_height p) (core_size p) 0 y 0)"

subsection \<open>The first script and v2: one merged mesh\<close>

definition columns_loop :: "params \<Rightarrow> int \<Rightarrow> real \<Rightarrow> real \<Rightarrow> accum \<Rightarrow> accum" where
  "columns_loop p grid_size column_spacing y =
     fold (\<lambda>gx. fold (\<lambda>gz. add_mesh (column_box p column_spacing y gx gz))
                   (py_range grid_size))
       (py_range grid_size)"

definition beams_x_loop :: "params \<Rightarrow> int \<Rightarrow> real \<Rightarrow> real \<Rightarrow> accum \<Rightarrow> accum" where
  "beams_x_loop p grid_size column_spacing y =
     fold (\<lambda>gz. fold (\<lambda>gx. add_mesh (beam_x_box p column_spacing y gz gx))
                   (py_range (grid_size - 1)))
       (py_range grid_size)"

definition beams_z_loop :: "params \<Rightarrow> int \<Rightarrow> real \<Rightarrow> real \<Rightarrow> accum \<Rightarrow> accum" where
  "beams_z_loop p grid_size column_spacing y =
     fold (\<lambda>gx. fold (\<lambda>gz. add_mesh (beam_z_box p column_spacing y gx gz))
                   (py_range (grid_size - 1)))
       (py_range grid_size)"

definition floor_v1 :: "params \<Rightarrow> int \<Rightarrow> real \<Rightarrow> int \<Rightarrow> accum \<Rightarrow> accum" where
  "floor_v1 p grid_size column_spacing f a =
     (let y_base = real_of_int f * floor_height p;
          a = add_mesh (slab_box p y_base) a
      in if f < floors p - 1
         then beams_z_loop p grid_size column_spacing y_base
                (beams_x_loop p grid_size column_spacing y_base
                  (columns_loop p grid_size column_spacing y_base a))
         else a)"

definition geometry_v1 :: "params \<Rightarrow> int \<Rightarrow> real \<Rightarrow> accum" where
  "geometry_v1 p grid_size column_spacing =
     fold (floor_v1 p grid_size column_spacing) (py_range (floors p)) accum_init"

definition floor_v2 :: "params \<Rightarrow> int \<Rightarrow> real \<Rightarrow> int \<Rightarrow> accum \<Rightarrow> accum" where
  "floor_v2 p grid_size column_spacing f a =
     (let y = real_of_int f * floor_height p;
          a = add_mesh (slab_box p y) a
      in if f < floors p - 1
         then add_mesh (brace_box p column_spacing y)
                (beams_z_loop p grid_size column_spacing y
                  (beams_x_loop p grid_size column_spacing y
                    (columns_loop p grid_size column_spacing y a)))
         else a)"

definition geometry_v2 :: "params \<Rightarrow> int \<Rightarrow> real \<Rightarrow> accum" where
  "geometry_v2 p grid_size column_spacing =
     (let a = fold (floor_v2 p grid_size column_spacing) (py_range (floors p)) accum_init;
          a = fold (\<lambda>f. add_mesh (wall_box p f)) (py_range (floors p - 1)) a;
          a = fold (\<lambda>f. add_mesh (core_box p f)) (py_range (floors p - 1)) a
      in a)"

subsection \<open>v3: one store per category\<close>

type_synonym store = "vertex list \<times> int list"

record stores =
  slabs :: store
  cols :: store
  beams :: store
  spatial :: store
  core :: store
  walls :: store

definition stores_init :: stores where
  "stores_init = \<lparr>slabs = ([], []), cols = ([], []), beams = ([], []),
                   spatial = ([], []), core = ([], []), walls = ([], [])\<rparr>"

definition floor_v3 :: "params \<Rightarrow> int \<Rightarrow> real \<Rightarrow> int \<Rightarrow> stores \<Rightarrow> stores" where
  "floor_v3 p grid_size spacing f st =
     (let y = real_of_int f * floor_height p;
          st = st\<lparr>slabs := add (slab_box p y) (slabs st)\<rparr>;
          st = st\<lparr>spatial := add (spatial_box p y) (spatial st)\<rparr>
      in if f < floors p - 1
         then (let st = st\<lparr>cols :=
                       fold (\<lambda>gx. fold (\<lambda>gz. add (column_box p spacing y gx gz))
                                     (py_range grid_size))
                         (py_range grid_size) (cols st)\<rparr>;
                   st = st\<lparr>beams :=
                       fold (\<lambda>gz. fold (\<lambda>gx. add (beam_x_box p spacing y gz gx))
                                     (py_range (grid_size - 1)))
                         (py_range grid_size) (beams st)\<rparr>
               in st)
         else st)"

text \<open>
  \<^verbatim>\<open>build_structure\<close> returns a dict; Python dicts keep insertion order, so the model
  returns the association list in the order of the dict literal.
\<close>

type_synonym mesh_data = "vertex list \<times> int list \<times> string"

definition build_structure :: "params \<Rightarrow> int \<Rightarrow> error + (string \<times> mesh_data) list" where
  "build_structure p grid_size =
     (case py_truediv (building_width p) (grid_size - 1) of
        Inl e \<Rightarrow> Inl e
      | Inr spacing \<Rightarrow>
          (let st = fold (floor_v3 p grid_size spacing) (py_range (floors p)) stores_init;
               st = st\<lparr>core := fold (\<lambda>f. add (core_box p f)) (py_range (floors p - 1)) (core st)\<rparr>;
               st = st\<lparr>walls := fold (\<lambda>f. add (wall_box p f)) (py_range (floors p - 1)) (walls st)\<rparr>
           in Inr [(''Slabs'', fst (slabs st), snd (slabs st), ''structure''),
                   (''Columns'', fst (cols st), snd (cols st), ''structure''),
                   (''Beams'', fst (beams st), snd (beams st), ''structure''),
                   (''Core'', fst (core st), snd (core st), ''structure''),
                   (''Walls'', fst (walls st), snd (walls st), ''structure''),
                   (''SpatialZones'', fst (spatial st), snd (spatial st), ''spatial'')]))"

section \<open>Binary packing\<close>

text \<open>
  A byte of the buffer. \<^verbatim>\<open>struct.pack('<I', i)\<close> gives the four little-endian bytes of
  \<open>i\<close> and raises \<^verbatim>\<open>struct.error\<close> outside \<open>[0, 2^32)\<close>. \<^verbatim>\<open>struct.pack('<3f', x, y, z)\<close> gives
  four bytes per number, the IEEE-754 binary32 encoding of its rounding; the rounding is
  not modelled, so byte \<open>k\<close> of the encoding of \<open>x\<close> is kept as \<open>FloatByte x k\<close>. A number
  that rounds beyond the binary32 range raises \<^verbatim>\<open>OverflowError\<close>.
\<close>

datatype byte = Byte "8 word" | FloatByte real nat

definition pack_I :: "int \<Rightarrow> error + byte list" where
  "pack_I i =
     (if 0 \<le> i \<and> i < 2 ^ 32
      then Inr [Byte (word_of_int i), Byte (word_of_int (i div 2 ^ 8)),
                Byte (word_of_int (i div 2 ^ 16)), Byte (word_of_int (i div 2 ^ 24))]
      else Inl StructError)"

definition pack_f :: "real \<Rightarrow> error + byte list" where
  "pack_f x =
     (if 2 ^ 128 - 2 ^ 103 \<le> \<bar>x\<bar> then Inl OverflowError
      else Inr [FloatByte x 0, FloatByte x 1, FloatByte x 2, FloatByte x 3])"

fun pack_3f :: "vertex \<Rightarrow> error + byte list" where
  "pack_3f (x, y, z) =
     (case pack_f x of Inl e \<Rightarrow> Inl e | Inr b0 \<Rightarrow>
      case pack_f y of Inl e \<Rightarrow> Inl e | Inr b1 \<Rightarrow>
      case pack_f z of Inl e \<Rightarrow> Inl e | Inr b2 \<Rightarrow> Inr (b0 @ b1 @ b2))"

text \<open>\<^verbatim>\<open>b''.join([f(x) for x in xs])\<close>: the first element that raises ends the run.\<close>

fun join_packed :: "('a \<Rightarrow> error + byte list) \<Rightarrow> 'a list \<Rightarrow> error + byte list" where
  "join_packed f [] = Inr []"
| "join_packed f (x # xs) =
     (case f x of Inl e \<Rightarrow> Inl e | Inr b \<Rightarrow>
      case join_packed f xs of Inl e \<Rightarrow> Inl e | Inr bs \<Rightarrow> Inr (b @ bs))"

section \<open>The document\<close>

record buffer_view =
  bv_buffer :: nat
  byteOffset :: nat
  byteLength :: nat
  target :: "nat option"

record accessor =
  bufferView :: nat
  componentType :: nat
  acc_count :: nat
  acc_type :: string
  acc_max :: "real list option"
  acc_min :: "real list option"

record primitive =
  POSITION :: nat
  NORMAL :: "nat option"
  prim_indices :: nat
  prim_material :: "nat option"

record node =
  node_mesh :: nat
  node_name :: "string option"
  node_extras :: "(string \<times> nat) option"

record material =
  baseColorFactor :: "real list"
  metallicFactor :: real
  roughnessFactor :: real

text \<open>
  The \<^verbatim>\<open>gltf\<close> dict. The buffer's \<^verbatim>\<open>uri\<close> is the base64 text of the packed bytes; the
  model keeps the bytes themselves.
\<close>

record gltf =
  g_version :: string
  g_buffer :: "byte list"
  g_byteLength :: nat
  g_bufferViews :: "buffer_view list"
  g_accessors :: "accessor list"
  g_materials :: "material list"
  g_meshes :: "primitive list list"
  g_nodes :: "node list"
  g_scene_nodes :: "nat list"
  g_scene :: nat

subsection \<open>The first script\<close>

text \<open>
  \<^verbatim>\<open>max(v[i] for v in all_vertices)\<close> and \<^verbatim>\<open>min(...)\<close>: Python keeps the first extremal
  element and raises \<^verbatim>\<open>ValueError\<close> on an empty sequence.
\<close>

fun py_max :: "real list \<Rightarrow> error + real" where
  "py_max [] = Inl ValueError"
| "py_max (x # xs) = Inr (fold (\<lambda>item m. if item > m then item else m) xs x)"

fun py_min :: "real list \<Rightarrow> error + real" where
  "py_min [] = Inl ValueError"
| "py_min (x # xs) = Inr (fold (\<lambda>item m. if item < m then item else m) xs x)"

fun coord :: "nat \<Rightarrow> vertex \<Rightarrow> real" where
  "coord i (x, y, z) = (if i = 0 then x else if i = 1 then y else z)"

fun collect :: "(error + 'a) list \<Rightarrow> error + 'a list" where
  "collect [] = Inr []"
| "collect (r # rs) =
     (case r of Inl e \<Rightarrow> Inl e | Inr x \<Rightarrow>
      case collect rs of Inl e \<Rightarrow> Inl e | Inr xs \<Rightarrow> Inr (x # xs))"

definition bounds_max :: "vertex list \<Rightarrow> error + real list" where
  "bounds_max vs = collect (map (\<lambda>i. py_max (map (coord i) vs)) [0, 1, 2])"

definition bounds_min :: "vertex list \<Rightarrow> error + real list" where
  "bounds_min vs = collect (map (\<lambda>i. py_min (map (coord i) vs)) [0, 1, 2])"

definition generate_v1 :: "params \<Rightarrow> int \<Rightarrow> error + gltf" where
  "generate_v1 p grid_size =
     (case py_truediv (building_width p) (grid_size - 1) of Inl e \<Rightarrow> Inl e
      | Inr column_spacing \<Rightarrow>
     (let a = geometry_v1 p grid_size column_spacing in
      case join_packed pack_3f (all_vertices a) of Inl e \<Rightarrow> Inl e | Inr vertex_bytes \<Rightarrow>
      case join_packed pack_I (all_indices a) of Inl e \<Rightarrow> Inl e | Inr index_bytes \<Rightarrow>
      (let combined = vertex_bytes @ index_bytes in
       case bounds_max (all_vertices a) of Inl e \<Rightarrow> Inl e | Inr mx \<Rightarrow>
       case bounds_min (all_vertices a) of Inl e \<Rightarrow> Inl e | Inr mn \<Rightarrow>
         Inr \<lparr>g_version = ''2.0'',
              g_buffer = combined,
              g_byteLength = length combined,
              g_bufferViews =
                [\<lparr>bv_buffer = 0, byteOffset = 0, byteLength = length vertex_bytes,
                   target = Some 34962\<rparr>,
                 \<lparr>bv_buffer = 0, byteOffset = length vertex_bytes,
                   byteLength = length index_bytes, target = Some 34963\<rparr>],
              g_accessors =
                [\<lparr>bufferView = 0, componentType = 5126,
                   acc_count = length (all_vertices a), acc_type = ''VEC3'',
                   acc_max = Some mx, acc_min = Some mn\<rparr>,
                 \<lparr>bufferView = 1, componentType = 5125,
                   acc_count = length (all_indices a), acc_type = ''SCALAR'',
                   acc_max = None, acc_min = None\<rparr>],
              g_materials = [],
              g_meshes = [[\<lparr>POSITION = 0, NORMAL = None, prim_indices = 1,
                             prim_material = None\<rparr>]],
              g_nodes = [\<lparr>node_mesh = 0, node_name = None, node_extras = None\<rparr>],
              g_scene_nodes = [0],
              g_scene = 0\<rparr>)))"

subsection \<open>v2\<close>

definition generate_v2 :: "params \<Rightarrow> int \<Rightarrow> error + gltf" where
  "generate_v2 p grid_size =
     (case py_truediv (building_width p) (grid_size - 1) of Inl e \<Rightarrow> Inl e
      | Inr column_spacing \<Rightarrow>
     (let a = geometry_v2 p grid_size column_spacing in
      case compute_normals (all_vertices a) (all_indices a) of Inl e \<Rightarrow> Inl e
      | Inr normals \<Rightarrow>
      case join_packed pack_3f (all_vertices a) of Inl e \<Rightarrow> Inl e | Inr vertex_bytes \<Rightarrow>
      case join_packed pack_3f normals of Inl e \<Rightarrow> Inl e | Inr normal_bytes \<Rightarrow>
      case join_packed pack_I (all_indices a) of Inl e \<Rightarrow> Inl e | Inr index_bytes \<Rightarrow>
      (let combined = vertex_bytes @ normal_bytes @ index_bytes in
         Inr \<lparr>g_version = ''2.0'',
              g_buffer = combined,
              g_byteLength = length combined,
              g_bufferViews =
                [\<lparr>bv_buffer = 0, byteOffset = 0, byteLength = length vertex_bytes,
                   target = Some 34962\<rparr>,
                 \<lparr>bv_buffer = 0, byteOffset = length vertex_bytes,
                   byteLength = length normal_bytes, target = Some 34962\<rparr>,
                 \<lparr>bv_buffer = 0, byteOffset = length vertex_bytes + length normal_bytes,
                   byteLength = length index_bytes, target = Some 34963\<rparr>],
              g_accessors =
                [\<lparr>bufferView = 0, componentType = 5126,
                   acc_count = length (all_vertices a), acc_type = ''VEC3'',
                   acc_max = None, acc_min = None\<rparr>,
                 \<lparr>bufferView = 1, componentType = 5126,
                   acc_count = length normals, acc_type = ''VEC3'',
                   acc_max = None, acc_min = None\<rparr>,
                 \<lparr>bufferView = 2, componentType = 5125,
                   acc_count = length (all_indices a), acc_type = ''SCALAR'',
                   acc_max = None, acc_min = None\<rparr>],
              g_materials =
                [\<lparr>baseColorFactor = [75 / 100, 75 / 100, 8 / 10, 1],
                   metallicFactor = 5 / 100, roughnessFactor = 9 / 10\<rparr>],
              g_meshes = [[\<lparr>POSITION = 0, NORMAL = Some 1, prim_indices = 2,
                             prim_material = Some 0\<rparr>]],
              g_nodes = [\<lparr>node_mesh = 0, node_name = None, node_extras = None\<rparr>],
              g_scene_nodes = [0],
              g_scene = 0\<rparr>)))"

subsection \<open>v3\<close>

text \<open>
  The module-level lists and buffer that \<^verbatim>\<open>append_mesh\<close> extends. (\<^verbatim>\<open>node_index\<close> is
  declared and never read or written again.)
\<close>

record packer =
  all_buffer :: "byte list"
  bufferViews :: "buffer_view list"
  accessors :: "accessor list"
  meshes :: "primitive list list"
  nodes :: "node list"

definition packer_init :: packer where
  "packer_init = \<lparr>all_buffer = [], bufferViews = [], accessors = [], meshes = [], nodes = []\<rparr>"

text \<open>The decimal text of a natural number, for the f-string of the node's name.\<close>

fun str_nat :: "nat \<Rightarrow> string" where
  "str_nat n =
     (if n < 10 then [''0123456789'' ! n]
      else str_nat (n div 10) @ [''0123456789'' ! (n mod 10)])"

definition append_mesh :: "string \<Rightarrow> mesh_data \<Rightarrow> nat \<Rightarrow> packer \<Rightarrow> error + packer" where
  "append_mesh name data lod_level st =
     (case data of (verts, inds, semantic) \<Rightarrow>
      case compute_normals verts inds of Inl e \<Rightarrow> Inl e | Inr normals \<Rightarrow>
      case join_packed pack_3f verts of Inl e \<Rightarrow> Inl e | Inr v_bytes \<Rightarrow>
      case join_packed pack_3f normals of Inl e \<Rightarrow> Inl e | Inr n_bytes \<Rightarrow>
      case join_packed pack_I inds of Inl e \<Rightarrow> Inl e | Inr i_bytes \<Rightarrow>
      (let offset_v = length (all_buffer st);
           buf = all_buffer st @ v_bytes;
           offset_n = length buf;
           buf = buf @ n_bytes;
           offset_i = length buf;
           buf = buf @ i_bytes;
           bv_v = length (bufferViews st);
           bvs = bufferViews st @
             [\<lparr>bv_buffer = 0, byteOffset = offset_v, byteLength = length v_bytes,
                target = None\<rparr>];
           bv_n = length bvs;
           bvs = bvs @
             [\<lparr>bv_buffer = 0, byteOffset = offset_n, byteLength = length n_bytes,
                target = None\<rparr>];
           bv_i = length bvs;
           bvs = bvs @
             [\<lparr>bv_buffer = 0, byteOffset = offset_i, byteLength = length i_bytes,
                target = None\<rparr>];
           acc_v = length (accessors st);
           accs = accessors st @
             [\<lparr>bufferView = bv_v, componentType = 5126, acc_count = length verts,
                acc_type = ''VEC3'', acc_max = None, acc_min = None\<rparr>];
           acc_n = length accs;
           accs = accs @
             [\<lparr>bufferView = bv_n, componentType = 5126, acc_count = length normals,
                acc_type = ''VEC3'', acc_max = None, acc_min = None\<rparr>];
           acc_i = length accs;
           accs = accs @
             [\<lparr>bufferView = bv_i, componentType = 5125, acc_count = length inds,
                acc_type = ''SCALAR'', acc_max = None, acc_min = None\<rparr>];
           ms = meshes st @
             [[\<lparr>POSITION = acc_v, NORMAL = Some acc_n, prim_indices = acc_i,
                 prim_material = None\<rparr>]];
           ns = nodes st @
             [\<lparr>node_mesh = length ms - 1,
                node_name = Some (name @ ''_LOD'' @ str_nat lod_level),
                node_extras = Some (semantic, lod_level)\<rparr>]
       in Inr \<lparr>all_buffer = buf, bufferViews = bvs, accessors = accs,
                meshes = ms, nodes = ns\<rparr>))"

text \<open>\<^verbatim>\<open>for name, data in lod.items(): append_mesh(name, data, level)\<close>.\<close>

fun append_all :: "(string \<times> mesh_data) list \<Rightarrow> nat \<Rightarrow> packer \<Rightarrow> error + packer" where
  "append_all [] lod_level st = Inr st"
| "append_all ((name, data) # rest) lod_level st =
     (case append_mesh name data lod_level st of
        Inl e \<Rightarrow> Inl e
      | Inr st' \<Rightarrow> append_all rest lod_level st')"

definition emit_gltf :: "packer \<Rightarrow> gltf" where
  "emit_gltf st =
     \<lparr>g_version = ''2.0'',
      g_buffer = all_buffer st,
      g_byteLength = length (all_buffer st),
      g_bufferViews = bufferViews st,
      g_accessors = accessors st,
      g_materials = [],
      g_meshes = meshes st,
      g_nodes = nodes st,
      g_scene_nodes = [0..<length (nodes st)],
      g_scene = 0\<rparr>"

definition generate_v3 :: "params \<Rightarrow> int \<Rightarrow> int \<Rightarrow> error + gltf" where
  "generate_v3 p grid_L0 grid_L1 =
     (case build_structure p grid_L0 of Inl e \<Rightarrow> Inl e | Inr lod0 \<Rightarrow>
      case build_structure p grid_L1 of Inl e \<Rightarrow> Inl e | Inr lod1 \<Rightarrow>
      case append_all lod0 0 packer_init of Inl e \<Rightarrow> Inl e | Inr st \<Rightarrow>
      case append_all lod1 1 st of Inl e \<Rightarrow> Inl e | Inr st \<Rightarrow>
        Inr (emit_gltf st))"

section \<open>Notions of the specification\<close>


text \<open>An added mesh is locally valid when every index is below its own vertex count.\<close>

definition locally_valid :: "vertex list \<times> int list \<Rightarrow> bool" where
  "locally_valid m = (\<forall>idx \<in> set (snd m). idx < int (length (fst m)))"

text \<open>The invariant of a store of v3, and of the accumulator of the first two scripts.\<close>

definition store_valid :: "vertex list \<times> int list \<Rightarrow> bool" where
  "store_valid s = (\<forall>idx \<in> set (snd s). idx < int (length (fst s)))"

definition accum_valid :: "accum \<Rightarrow> bool" where
  "accum_valid a =
     (offset a = int (length (all_vertices a)) \<and>
      (\<forall>idx \<in> set (all_indices a). idx < int (length (all_vertices a))))"

text \<open>
  The accumulated face normal of vertex \<open>k\<close>: over the triangles of the index list in
  order, the cross product of the triangle's two edge vectors, once for each of the
  triangle's three slots that holds \<open>k\<close>.
\<close>

fun triangles :: "int list \<Rightarrow> (int \<times> int \<times> int) list" where
  "triangles (i0 # i1 # i2 # rest) = (i0, i1, i2) # triangles rest"
| "triangles _ = []"

fun vscale :: "real \<Rightarrow> vertex \<Rightarrow> vertex" where
  "vscale c (x, y, z) = (c * x, c * y, c * z)"

fun contribution :: "vertex list \<Rightarrow> nat \<Rightarrow> int \<times> int \<times> int \<Rightarrow> vertex" where
  "contribution vertices k (i0, i1, i2) =
     vscale (real (count_list [i0, i1, i2] (int k)))
       (face_normal (vertices ! nat i0) (vertices ! nat i1) (vertices ! nat i2))"


text \<open>
  Byte-exactness of a document: the byte lengths of the buffer views add up to the length
  of the buffer; each view starts where the views before it end (so no gap and no
  padding); no two views overlap; each accessor's count times its element size (the
  arity of its type times the size of its component type) is its view's byte length.
  The bytes of a mesh group are its positions, then its normals, then its indices.
\<close>

definition component_bytes :: "nat \<Rightarrow> nat" where
  "component_bytes ct = (if ct = 5126 \<or> ct = 5125 then 4 else 0)"

definition arity :: "string \<Rightarrow> nat" where
  "arity t = (if t = ''VEC3'' then 3 else if t = ''SCALAR'' then 1 else 0)"

definition element_bytes :: "accessor \<Rightarrow> nat" where
  "element_bytes a = arity (acc_type a) * component_bytes (componentType a)"

definition views_contiguous :: "buffer_view list \<Rightarrow> bool" where
  "views_contiguous bvs =
     (\<forall>k < length bvs. byteOffset (bvs ! k) = sum_list (map byteLength (take k bvs)))"

definition views_disjoint :: "buffer_view list \<Rightarrow> bool" where
  "views_disjoint bvs =
     (\<forall>i j. i < j \<and> j < length bvs \<longrightarrow>
        byteOffset (bvs ! i) + byteLength (bvs ! i) \<le> byteOffset (bvs ! j))"

definition accessors_exact :: "buffer_view list \<Rightarrow> accessor list \<Rightarrow> bool" where
  "accessors_exact bvs accs =
     (\<forall>a \<in> set accs. bufferView a < length bvs
        \<and> acc_count a * element_bytes a = byteLength (bvs ! bufferView a))"

definition byte_exact :: "gltf \<Rightarrow> bool" where
  "byte_exact doc =
     (sum_list (map byteLength (g_bufferViews doc)) = g_byteLength doc
      \<and> g_byteLength doc = length (g_buffer doc)
      \<and> views_contiguous (g_bufferViews doc)
      \<and> views_disjoint (g_bufferViews doc)
      \<and> accessors_exact (g_bufferViews doc) (g_accessors doc))"

definition mesh_bytes :: "mesh_data \<Rightarrow> error + byte list" where
  "mesh_bytes data =
     (case data of (verts, inds, semantic) \<Rightarrow>
      case compute_normals verts inds of Inl e \<Rightarrow> Inl e | Inr normals \<Rightarrow>
      case join_packed pack_3f verts of Inl e \<Rightarrow> Inl e | Inr positions \<Rightarrow>
      case join_packed pack_3f normals of Inl e \<Rightarrow> Inl e | Inr normal_bytes \<Rightarrow>
      case join_packed pack_I inds of Inl e \<Rightarrow> Inl e | Inr index_bytes \<Rightarrow>
        Inr (positions @ normal_bytes @ index_bytes))"

definition packer_inv :: "packer \<Rightarrow> bool" where
  "packer_inv st =
     (sum_list (map byteLength (bufferViews st)) = length (all_buffer st)
      \<and> views_contiguous (bufferViews st)
      \<and> accessors_exact (bufferViews st) (accessors st))"

text \<open>
  A box is 8 vertices and 36 indices; a store (v3) or the accumulator (the first two
  scripts) holds \<open>k\<close> boxes when it has \<open>8 k\<close> vertices and \<open>36 k\<close> indices.
\<close>

definition holds_boxes :: "vertex list \<times> int list \<Rightarrow> nat \<Rightarrow> bool" where
  "holds_boxes s k = (length (fst s) = 8 * k \<and> length (snd s) = 36 * k)"

definition is_box :: "vertex list \<times> int list \<Rightarrow> bool" where
  "is_box m = (length (fst m) = 8 \<and> length (snd m) = 36)"

definition accum_boxes :: "accum \<Rightarrow> nat \<Rightarrow> bool" where
  "accum_boxes a k = (length (all_vertices a) = 8 * k \<and> length (all_indices a) = 36 * k)"

text \<open>An accessor that declares no minimum and no maximum.\<close>

definition no_bounds :: "accessor \<Rightarrow> bool" where
  "no_bounds a = (acc_max a = None \<and> acc_min a = None)"

text \<open>
  What makes a run return: an index list of whole triangles with every index in range,
  vertices whose coordinates are bounded (far inside the binary32 range), and fewer than
  \<open>2^32\<close> vertices. The stores \<^verbatim>\<open>build_structure\<close> has filled when it returns, and the dict
  it returns for them.
\<close>

definition triangles_valid :: "vertex list \<Rightarrow> int list \<Rightarrow> bool" where
  "triangles_valid vs inds =
     (length inds mod 3 = 0 \<and> (\<forall>i \<in> set inds. 0 \<le> i \<and> i < int (length vs)))"

fun bounded :: "real \<Rightarrow> vertex \<Rightarrow> bool" where
  "bounded B (x, y, z) = (\<bar>x\<bar> \<le> B \<and> \<bar>y\<bar> \<le> B \<and> \<bar>z\<bar> \<le> B)"

definition store_good :: "real \<Rightarrow> vertex list \<times> int list \<Rightarrow> bool" where
  "store_good B s = (triangles_valid (fst s) (snd s) \<and> list_all (bounded B) (fst s))"

definition good_box :: "real \<Rightarrow> vertex list \<times> int list \<Rightarrow> bool" where
  "good_box B m = (snd m = box_indices \<and> length (fst m) = 8 \<and> list_all (bounded B) (fst m))"

definition structure_stores :: "params \<Rightarrow> int \<Rightarrow> real \<Rightarrow> stores" where
  "structure_stores p n sp =
     (let st = fold (floor_v3 p n sp) (py_range (floors p)) stores_init;
          st = st\<lparr>core := fold (\<lambda>f. add (core_box p f)) (py_range (floors p - 1)) (core st)\<rparr>;
          st = st\<lparr>walls := fold (\<lambda>f. add (wall_box p f)) (py_range (floors p - 1)) (walls st)\<rparr>
      in st)"

definition groups_of :: "stores \<Rightarrow> (string \<times> mesh_data) list" where
  "groups_of st =
     [(''Slabs'', fst (slabs st), snd (slabs st), ''structure''),
      (''Columns'', fst (cols st), snd (cols st), ''structure''),
      (''Beams'', fst (beams st), snd (beams st), ''structure''),
      (''Core'', fst (core st), snd (core st), ''structure''),
      (''Walls'', fst (walls st), snd (walls st), ''structure''),
      (''SpatialZones'', fst (spatial st), snd (spatial st), ''spatial'')]"

definition stores_good :: "real \<Rightarrow> stores \<Rightarrow> bool" where
  "stores_good B st =
     (store_good B (slabs st) \<and> store_good B (cols st) \<and> store_good B (beams st)
      \<and> store_good B (spatial st) \<and> store_good B (core st) \<and> store_good B (walls st))"

definition group_ok :: "string \<times> mesh_data \<Rightarrow> bool" where
  "group_ok g =
     (case g of (name, verts, inds, semantic) \<Rightarrow>
        triangles_valid verts inds \<and> list_all (bounded 1000) verts
        \<and> int (length verts) \<le> 2 ^ 32)"

section \<open>Properties of the box builder\<close>

lemma create_box_length:
  "length (fst (create_box w h d tx ty tz)) = 8" "length (snd (create_box w h d tx ty tz)) = 36"
  by (simp_all add: create_box_def box_indices_def Let_def)


lemma box_indices_range: "idx \<in> set box_indices \<Longrightarrow> 0 \<le> idx \<and> idx < 8"
  by (auto simp: box_indices_def)







section \<open>The aggregator's invariant\<close>

lemma add_fst: "fst (add m s) = fst s @ fst m"
  by (cases m; cases s) (simp add: Let_def)

lemma add_snd: "snd (add m s) = snd s @ map (\<lambda>idx. idx + int (length (fst s))) (snd m)"
  by (cases m; cases s) (simp add: Let_def)

lemma add_store_valid:
  assumes "store_valid s" "locally_valid m"
  shows "store_valid (add m s)"
  using assms unfolding store_valid_def locally_valid_def
  by (auto simp: add_fst add_snd)

lemma fold_add_valid:
  assumes "\<forall>m \<in> set calls. locally_valid m" "store_valid s"
  shows "store_valid (fold add calls s)"
  using assms
proof (induction calls arbitrary: s)
  case Nil
  then show ?case by simp
next
  case (Cons m calls)
  have "store_valid (add m s)"
    using Cons.prems by (intro add_store_valid) simp_all
  then show ?case using Cons by simp
qed

lemma fold_add_length:
  "length (fst (fold add calls s)) = length (fst s) + sum_list (map (length \<circ> fst) calls)"
  by (induction calls arbitrary: s) (simp_all add: add_fst)

lemma add_mesh_sel:
  "all_vertices (add_mesh m a) = all_vertices a @ fst m"
  "all_indices (add_mesh m a) = all_indices a @ map (\<lambda>idx. idx + offset a) (snd m)"
  "offset (add_mesh m a) = offset a + int (length (fst m))"
  by (cases m; simp)+

lemma add_mesh_valid:
  assumes "accum_valid a" "locally_valid m"
  shows "accum_valid (add_mesh m a)"
  using assms unfolding accum_valid_def locally_valid_def
  by (auto simp: add_mesh_sel)

lemma fold_add_mesh_valid:
  assumes "\<forall>m \<in> set calls. locally_valid m" "accum_valid a"
  shows "accum_valid (fold add_mesh calls a)"
  using assms
proof (induction calls arbitrary: a)
  case Nil
  then show ?case by simp
next
  case (Cons m calls)
  have "accum_valid (add_mesh m a)"
    using Cons.prems by (intro add_mesh_valid) simp_all
  then show ?case using Cons by simp
qed

lemma fold_add_mesh_length:
  "length (all_vertices (fold add_mesh calls a)) =
     length (all_vertices a) + sum_list (map (length \<circ> fst) calls)"
  by (induction calls arbitrary: a) (simp_all add: add_mesh_sel)

text \<open>
  C1. After any sequence of \<^verbatim>\<open>add\<close> calls (v3) or \<^verbatim>\<open>add_mesh\<close> calls (v2) from the
  empty store, each adding a locally valid mesh, every stored index is below the
  store's vertex count, and the vertex count is the sum of the added vertex counts.
\<close>

theorem aggregator_invariant:
  assumes "\<forall>m \<in> set calls. locally_valid m"
  shows "(\<forall>idx \<in> set (snd (fold add calls ([], []))).
            idx < int (length (fst (fold add calls ([], [])))))
       \<and> length (fst (fold add calls ([], []))) = sum_list (map (length \<circ> fst) calls)
       \<and> (\<forall>idx \<in> set (all_indices (fold add_mesh calls accum_init)).
            idx < int (length (all_vertices (fold add_mesh calls accum_init))))
       \<and> length (all_vertices (fold add_mesh calls accum_init))
           = sum_list (map (length \<circ> fst) calls)
       \<and> offset (fold add_mesh calls accum_init)
           = int (length (all_vertices (fold add_mesh calls accum_init)))"
proof -
  have "store_valid ([], [])"
    by (simp add: store_valid_def)
  then have s: "store_valid (fold add calls ([], []))"
    using assms fold_add_valid by blast
  have "accum_valid accum_init"
    by (simp add: accum_valid_def accum_init_def)
  then have a: "accum_valid (fold add_mesh calls accum_init)"
    using assms fold_add_mesh_valid by blast
  have l1: "length (fst (fold add calls ([], []))) = sum_list (map (length \<circ> fst) calls)"
    by (simp add: fold_add_length)
  have l2: "length (all_vertices (fold add_mesh calls accum_init))
           = sum_list (map (length \<circ> fst) calls)"
    by (simp add: fold_add_mesh_length accum_init_def)
  show ?thesis
    using s a l1 l2 unfolding store_valid_def accum_valid_def by blast
qed

text \<open>A triangle, then a degenerate triangle on two further vertices.\<close>

theorem aggregator_invariant_witness:
  "locally_valid ([(0, 0, 0), (1, 0, 0), (0, 1, 0)], [0, 1, 2])
   \<and> locally_valid ([(0, 0, 1), (1, 0, 1)], [1, 0, 1])
   \<and> snd (fold add [([(0, 0, 0), (1, 0, 0), (0, 1, 0)], [0, 1, 2]),
                     ([(0, 0, 1), (1, 0, 1)], [1, 0, 1])] ([], [])) = [0, 1, 2, 4, 3, 4]
   \<and> length (fst (fold add [([(0, 0, 0), (1, 0, 0), (0, 1, 0)], [0, 1, 2]),
                     ([(0, 0, 1), (1, 0, 1)], [1, 0, 1])] ([], []))) = 5
   \<and> length (all_vertices (fold add_mesh [([(0, 0, 0), (1, 0, 0), (0, 1, 0)], [0, 1, 2]),
                     ([(0, 0, 1), (1, 0, 1)], [1, 0, 1])] accum_init)) = 5"
  using aggregator_invariant [of "[([(0, 0, 0), (1, 0, 0), (0, 1, 0)], [0, 1, 2]),
                     ([(0, 0, 1), (1, 0, 1)], [1, 0, 1])]"]
  by (simp add: locally_valid_def accum_init_def Let_def)

section \<open>The normal estimator\<close>

lemma py_pos_valid: "0 \<le> i \<Longrightarrow> i < int n \<Longrightarrow> py_pos n i = Inr (nat i)"
  by (simp add: py_pos_def Let_def)

lemma bump_length: "length (bump n j ns) = length ns"
  by (simp add: bump_def)

lemma bump_nth:
  "j < length ns \<Longrightarrow> bump n j ns ! k = (if k = j then vadd (ns ! k) n else ns ! k)"
  by (simp add: bump_def)

lemma vadd_zero: "vadd v (vscale 0 n) = v"
  by (cases v; cases n) simp

lemma three_bumps:
  assumes "k0 < length ns" "k1 < length ns" "k2 < length ns"
  shows "bump n k2 (bump n k1 (bump n k0 ns)) ! k
       = vadd (ns ! k) (vscale (real (count_list [int k0, int k1, int k2] (int k))) n)"
proof -
  obtain a b c where v: "ns ! k = (a, b, c)" by (cases "ns ! k")
  obtain x y z where n: "n = (x, y, z)" by (cases n)
  show ?thesis
    using assms v n by (auto simp add: bump_nth bump_length algebra_simps)
qed

lemma accumulate_spec:
  assumes "length indices mod 3 = 0"
    and "\<forall>i \<in> set indices. 0 \<le> i \<and> i < int (length vertices)"
    and "length normals = length vertices"
  shows "\<exists>acc. accumulate vertices indices normals = Inr acc
           \<and> length acc = length vertices
           \<and> (\<forall>k < length vertices.
                 acc ! k = foldl vadd (normals ! k)
                             (map (contribution vertices k) (triangles indices)))"
  using assms
proof (induction vertices indices normals rule: accumulate.induct)
  case (1 vertices i0 i1 i2 rest normals)
  let ?n = "face_normal (vertices ! nat i0) (vertices ! nat i1) (vertices ! nat i2)"
  let ?ns = "bump ?n (nat i2) (bump ?n (nat i1) (bump ?n (nat i0) normals))"
  have r: "0 \<le> i0" "i0 < int (length vertices)" "0 \<le> i1" "i1 < int (length vertices)"
    "0 \<le> i2" "i2 < int (length vertices)"
    using "1.prems"(2) by simp_all
  have p: "py_pos (length vertices) i0 = Inr (nat i0)"
    "py_pos (length vertices) i1 = Inr (nat i1)"
    "py_pos (length vertices) i2 = Inr (nat i2)"
    using r by (simp_all add: py_pos_valid)
  have len: "length ?ns = length vertices"
    using "1.prems"(3) by (simp add: bump_length)
  have m: "length rest mod 3 = 0"
    using "1.prems"(1) by simp
  have v: "\<forall>i \<in> set rest. 0 \<le> i \<and> i < int (length vertices)"
    using "1.prems"(2) by simp
  from "1.IH" [OF p(1) p(2) p(3) refl m v len]
  obtain acc where acc: "accumulate vertices rest ?ns = Inr acc"
    "length acc = length vertices"
    "\<forall>k < length vertices.
        acc ! k = foldl vadd (?ns ! k) (map (contribution vertices k) (triangles rest))"
    by blast
  have b: "?ns ! k = vadd (normals ! k) (contribution vertices k (i0, i1, i2))" for k
  proof -
    have "?ns ! k = vadd (normals ! k)
        (vscale (real (count_list [int (nat i0), int (nat i1), int (nat i2)] (int k))) ?n)"
      using r "1.prems"(3) by (intro three_bumps) simp_all
    then show ?thesis using r by simp
  qed
  have "accumulate vertices (i0 # i1 # i2 # rest) normals = Inr acc"
    using p acc(1) by (simp add: Let_def)
  moreover have "\<forall>k < length vertices.
      acc ! k = foldl vadd (normals ! k)
                  (map (contribution vertices k) (triangles (i0 # i1 # i2 # rest)))"
    using acc(3) b by simp
  ultimately show ?case using acc(2) by blast
qed simp_all

lemma denominator_pos: "0 < sqrt (a ^ 2 + b ^ 2 + c ^ 2) + 1 / 1000000"
proof -
  have "0 \<le> sqrt (a ^ 2 + b ^ 2 + c ^ 2)" by simp
  then show ?thesis by linarith
qed



section \<open>The binary packer\<close>

subsection \<open>Lengths of the packed streams\<close>

lemma pack_f_length: "pack_f x = Inr bs \<Longrightarrow> length bs = 4"
  by (auto simp: pack_f_def split: if_splits)

lemma pack_3f_length: "pack_3f v = Inr bs \<Longrightarrow> length bs = 12"
  by (cases v) (auto split: sum.splits dest!: pack_f_length)

lemma pack_I_length: "pack_I i = Inr bs \<Longrightarrow> length bs = 4"
  by (auto simp: pack_I_def split: if_splits)

lemma join_packed_length:
  assumes "\<And>x bs. f x = Inr bs \<Longrightarrow> length bs = n"
  shows "join_packed f xs = Inr out \<Longrightarrow> length out = n * length xs"
proof (induction xs arbitrary: out)
  case Nil
  then show ?case by simp
next
  case (Cons x xs)
  then show ?case
    by (auto split: sum.splits dest: assms)
qed

lemma accumulate_length:
  "accumulate vertices indices normals = Inr acc \<Longrightarrow> length acc = length normals"
  by (induction vertices indices normals rule: accumulate.induct)
     (auto simp: Let_def bump_def split: sum.splits)

lemma compute_normals_length:
  "compute_normals vertices indices = Inr normals \<Longrightarrow> length normals = length vertices"
  by (auto simp: compute_normals_def split: sum.splits dest: accumulate_length)

subsection \<open>One call of \<^verbatim>\<open>append_mesh\<close>\<close>

lemma append_mesh_result:
  assumes "append_mesh name (verts, inds, semantic) lod_level st = Inr st'"
  obtains normals v_bytes n_bytes i_bytes where
    "compute_normals verts inds = Inr normals"
    "join_packed pack_3f verts = Inr v_bytes"
    "join_packed pack_3f normals = Inr n_bytes"
    "join_packed pack_I inds = Inr i_bytes"
    "all_buffer st' = all_buffer st @ v_bytes @ n_bytes @ i_bytes"
    "bufferViews st' = bufferViews st @
       [\<lparr>bv_buffer = 0, byteOffset = length (all_buffer st),
          byteLength = length v_bytes, target = None\<rparr>,
        \<lparr>bv_buffer = 0, byteOffset = length (all_buffer st) + length v_bytes,
          byteLength = length n_bytes, target = None\<rparr>,
        \<lparr>bv_buffer = 0, byteOffset = length (all_buffer st) + length v_bytes + length n_bytes,
          byteLength = length i_bytes, target = None\<rparr>]"
    "accessors st' = accessors st @
       [\<lparr>bufferView = length (bufferViews st), componentType = 5126,
          acc_count = length verts, acc_type = ''VEC3'', acc_max = None, acc_min = None\<rparr>,
        \<lparr>bufferView = length (bufferViews st) + 1, componentType = 5126,
          acc_count = length normals, acc_type = ''VEC3'', acc_max = None, acc_min = None\<rparr>,
        \<lparr>bufferView = length (bufferViews st) + 2, componentType = 5125,
          acc_count = length inds, acc_type = ''SCALAR'', acc_max = None, acc_min = None\<rparr>]"
    "meshes st' = meshes st @
       [[\<lparr>POSITION = length (accessors st), NORMAL = Some (length (accessors st) + 1),
           prim_indices = length (accessors st) + 2, prim_material = None\<rparr>]]"
    "nodes st' = nodes st @
       [\<lparr>node_mesh = length (meshes st),
          node_name = Some (name @ ''_LOD'' @ str_nat lod_level),
          node_extras = Some (semantic, lod_level)\<rparr>]"
  using assms unfolding append_mesh_def Let_def
  by (auto split: sum.splits)

subsection \<open>The packer's invariant\<close>

lemma views_contiguous_append:
  assumes "views_contiguous bvs" "sum_list (map byteLength bvs) = n"
  shows "views_contiguous (bvs @
       [\<lparr>bv_buffer = 0, byteOffset = n, byteLength = a, target = t1\<rparr>,
        \<lparr>bv_buffer = 0, byteOffset = n + a, byteLength = b, target = t2\<rparr>,
        \<lparr>bv_buffer = 0, byteOffset = n + a + b, byteLength = c, target = t3\<rparr>])"
  unfolding views_contiguous_def
proof (intro allI impI)
  fix k
  let ?new = "[\<lparr>bv_buffer = 0, byteOffset = n, byteLength = a, target = t1\<rparr>,
        \<lparr>bv_buffer = 0, byteOffset = n + a, byteLength = b, target = t2\<rparr>,
        \<lparr>bv_buffer = 0, byteOffset = n + a + b, byteLength = c, target = t3\<rparr>]"
  assume k: "k < length (bvs @ ?new)"
  consider "k < length bvs" | "k = length bvs" | "k = length bvs + 1" | "k = length bvs + 2"
    using k by fastforce
  then show "byteOffset ((bvs @ ?new) ! k) = sum_list (map byteLength (take k (bvs @ ?new)))"
  proof cases
    case 1
    then show ?thesis
      using assms(1) by (simp add: views_contiguous_def nth_append)
  next
    case 2
    then show ?thesis using assms(2) by (simp add: nth_append)
  next
    case 3
    then show ?thesis using assms(2) by (simp add: nth_append)
  next
    case 4
    then show ?thesis using assms(2) by (simp add: nth_append numeral_2_eq_2)
  qed
qed

lemma sum_take_mono:
  fixes f :: "'a \<Rightarrow> nat"
  shows "i \<le> j \<Longrightarrow> sum_list (map f (take i xs)) \<le> sum_list (map f (take j xs))"
proof -
  assume "i \<le> j"
  then have "take j xs = take i xs @ take (j - i) (drop i xs)"
    by (metis le_add_diff_inverse take_add)
  then show ?thesis by simp
qed

lemma contiguous_disjoint:
  assumes "views_contiguous bvs"
  shows "views_disjoint bvs"
  unfolding views_disjoint_def
proof (intro allI impI)
  fix i j
  assume ij: "i < j \<and> j < length bvs"
  then have i: "i < length bvs" by simp
  have "byteOffset (bvs ! i) + byteLength (bvs ! i)
      = sum_list (map byteLength (take (Suc i) bvs))"
    using assms i by (simp add: views_contiguous_def take_Suc_conv_app_nth)
  also have "\<dots> \<le> sum_list (map byteLength (take j bvs))"
    using ij by (intro sum_take_mono) simp
  also have "\<dots> = byteOffset (bvs ! j)"
    using assms ij by (simp add: views_contiguous_def)
  finally show "byteOffset (bvs ! i) + byteLength (bvs ! i) \<le> byteOffset (bvs ! j)" .
qed

lemma accessors_exact_old:
  assumes "accessors_exact bvs accs"
  shows "accessors_exact (bvs @ new) accs"
  using assms unfolding accessors_exact_def
  by (auto simp: nth_append)

lemma append_mesh_inv:
  assumes "append_mesh name data lod_level st = Inr st'" "packer_inv st"
  shows "packer_inv st'"
proof -
  obtain verts inds semantic where data: "data = (verts, inds, semantic)"
    by (cases data)
  from assms(1) [unfolded data]
  obtain normals v_bytes n_bytes i_bytes where r:
    "compute_normals verts inds = Inr normals"
    "join_packed pack_3f verts = Inr v_bytes"
    "join_packed pack_3f normals = Inr n_bytes"
    "join_packed pack_I inds = Inr i_bytes"
    "all_buffer st' = all_buffer st @ v_bytes @ n_bytes @ i_bytes"
    "bufferViews st' = bufferViews st @
       [\<lparr>bv_buffer = 0, byteOffset = length (all_buffer st),
          byteLength = length v_bytes, target = None\<rparr>,
        \<lparr>bv_buffer = 0, byteOffset = length (all_buffer st) + length v_bytes,
          byteLength = length n_bytes, target = None\<rparr>,
        \<lparr>bv_buffer = 0, byteOffset = length (all_buffer st) + length v_bytes + length n_bytes,
          byteLength = length i_bytes, target = None\<rparr>]"
    "accessors st' = accessors st @
       [\<lparr>bufferView = length (bufferViews st), componentType = 5126,
          acc_count = length verts, acc_type = ''VEC3'', acc_max = None, acc_min = None\<rparr>,
        \<lparr>bufferView = length (bufferViews st) + 1, componentType = 5126,
          acc_count = length normals, acc_type = ''VEC3'', acc_max = None, acc_min = None\<rparr>,
        \<lparr>bufferView = length (bufferViews st) + 2, componentType = 5125,
          acc_count = length inds, acc_type = ''SCALAR'', acc_max = None, acc_min = None\<rparr>]"
    by (rule append_mesh_result)
  have inv: "sum_list (map byteLength (bufferViews st)) = length (all_buffer st)"
    "views_contiguous (bufferViews st)" "accessors_exact (bufferViews st) (accessors st)"
    using assms(2) by (simp_all add: packer_inv_def)
  have lv: "length v_bytes = 12 * length verts"
    using r(2) pack_3f_length by (rule join_packed_length [rotated])
  have ln: "length n_bytes = 12 * length normals"
    using r(3) pack_3f_length by (rule join_packed_length [rotated])
  have li: "length i_bytes = 4 * length inds"
    using r(4) pack_I_length by (rule join_packed_length [rotated])
  have s: "sum_list (map byteLength (bufferViews st')) = length (all_buffer st')"
    by (simp add: r(5) r(6) inv(1))
  have c: "views_contiguous (bufferViews st')"
    unfolding r(6) using inv(2) inv(1) by (rule views_contiguous_append)
  have old: "accessors_exact (bufferViews st') (accessors st)"
    unfolding r(6) using inv(3) by (rule accessors_exact_old)
  have a: "accessors_exact (bufferViews st') (accessors st')"
    using old unfolding accessors_exact_def r(7)
    by (auto simp: r(6) nth_append element_bytes_def arity_def component_bytes_def lv ln li
        numeral_2_eq_2)
  show ?thesis
    using s c a by (simp add: packer_inv_def)
qed

lemma append_mesh_buffer:
  assumes "append_mesh name data lod_level st = Inr st'"
  shows "\<exists>bs. mesh_bytes data = Inr bs \<and> all_buffer st' = all_buffer st @ bs"
proof -
  obtain verts inds semantic where data: "data = (verts, inds, semantic)"
    by (cases data)
  from assms [unfolded data]
  obtain normals v_bytes n_bytes i_bytes where r:
    "compute_normals verts inds = Inr normals"
    "join_packed pack_3f verts = Inr v_bytes"
    "join_packed pack_3f normals = Inr n_bytes"
    "join_packed pack_I inds = Inr i_bytes"
    "all_buffer st' = all_buffer st @ v_bytes @ n_bytes @ i_bytes"
    by (rule append_mesh_result)
  show ?thesis
    by (simp add: data mesh_bytes_def r)
qed

lemma append_mesh_counts:
  assumes "append_mesh name data lod_level st = Inr st'"
  shows "length (bufferViews st') = length (bufferViews st) + 3"
    "length (accessors st') = length (accessors st) + 3"
    "length (meshes st') = length (meshes st) + 1"
    "length (nodes st') = length (nodes st) + 1"
proof -
  obtain verts inds semantic where data: "data = (verts, inds, semantic)"
    by (cases data)
  from assms [unfolded data]
  show "length (bufferViews st') = length (bufferViews st) + 3"
    "length (accessors st') = length (accessors st) + 3"
    "length (meshes st') = length (meshes st) + 1"
    "length (nodes st') = length (nodes st) + 1"
    by (auto elim!: append_mesh_result)
qed

lemma append_all_inv:
  "append_all gs lod_level st = Inr st' \<Longrightarrow> packer_inv st \<Longrightarrow> packer_inv st'"
proof (induction gs arbitrary: st)
  case Nil
  then show ?case by simp
next
  case (Cons g gs)
  obtain name data where g: "g = (name, data)" by (cases g)
  from Cons.prems(1) obtain st1 where
    s: "append_mesh name data lod_level st = Inr st1" "append_all gs lod_level st1 = Inr st'"
    by (auto simp: g split: sum.splits)
  have "packer_inv st1"
    using s(1) Cons.prems(2) by (rule append_mesh_inv)
  then show ?case
    using Cons.IH s(2) by blast
qed

lemma append_all_buffer:
  "append_all gs lod_level st = Inr st' \<Longrightarrow>
     \<exists>bss. map (mesh_bytes \<circ> snd) gs = map Inr bss
          \<and> all_buffer st' = all_buffer st @ concat bss"
proof (induction gs arbitrary: st)
  case Nil
  then show ?case by simp
next
  case (Cons g gs)
  obtain name data where g: "g = (name, data)" by (cases g)
  from Cons.prems obtain st1 where
    s: "append_mesh name data lod_level st = Inr st1" "append_all gs lod_level st1 = Inr st'"
    by (auto simp: g split: sum.splits)
  from append_mesh_buffer [OF s(1)]
  obtain bs where bs: "mesh_bytes data = Inr bs" "all_buffer st1 = all_buffer st @ bs"
    by blast
  from Cons.IH [OF s(2)]
  obtain bss where bss: "map (mesh_bytes \<circ> snd) gs = map Inr bss"
    "all_buffer st' = all_buffer st1 @ concat bss"
    by blast
  have "map (mesh_bytes \<circ> snd) (g # gs) = map Inr (bs # bss)"
    by (simp add: g bs(1) bss(1))
  moreover have "all_buffer st' = all_buffer st @ concat (bs # bss)"
    by (simp add: bss(2) bs(2))
  ultimately show ?case by blast
qed

lemma append_all_counts:
  "append_all gs lod_level st = Inr st' \<Longrightarrow>
     length (bufferViews st') = length (bufferViews st) + 3 * length gs
     \<and> length (accessors st') = length (accessors st) + 3 * length gs
     \<and> length (meshes st') = length (meshes st) + length gs
     \<and> length (nodes st') = length (nodes st) + length gs"
proof (induction gs arbitrary: st)
  case Nil
  then show ?case by simp
next
  case (Cons g gs)
  obtain name data where g: "g = (name, data)" by (cases g)
  from Cons.prems obtain st1 where
    s: "append_mesh name data lod_level st = Inr st1" "append_all gs lod_level st1 = Inr st'"
    by (auto simp: g split: sum.splits)
  show ?case
    using Cons.IH [OF s(2)] append_mesh_counts [OF s(1)] by simp
qed

lemma packer_init_inv: "packer_inv packer_init"
  by (simp add: packer_inv_def packer_init_def views_contiguous_def accessors_exact_def)

lemma packer_inv_exact: "packer_inv st \<Longrightarrow> byte_exact (emit_gltf st)"
  by (simp add: packer_inv_def byte_exact_def emit_gltf_def contiguous_disjoint)

subsection \<open>The document of v2\<close>

lemma generate_v2_exact:
  assumes "generate_v2 p grid_size = Inr doc"
  shows "byte_exact doc"
proof -
  from assms obtain column_spacing normals vertex_bytes normal_bytes index_bytes where r:
    "compute_normals (all_vertices (geometry_v2 p grid_size column_spacing))
       (all_indices (geometry_v2 p grid_size column_spacing)) = Inr normals"
    "join_packed pack_3f (all_vertices (geometry_v2 p grid_size column_spacing)) = Inr vertex_bytes"
    "join_packed pack_3f normals = Inr normal_bytes"
    "join_packed pack_I (all_indices (geometry_v2 p grid_size column_spacing)) = Inr index_bytes"
    "g_buffer doc = vertex_bytes @ normal_bytes @ index_bytes"
    "g_byteLength doc = length (vertex_bytes @ normal_bytes @ index_bytes)"
    "g_bufferViews doc =
       [] @ [\<lparr>bv_buffer = 0, byteOffset = 0, byteLength = length vertex_bytes,
                   target = Some 34962\<rparr>,
                 \<lparr>bv_buffer = 0, byteOffset = 0 + length vertex_bytes,
                   byteLength = length normal_bytes, target = Some 34962\<rparr>,
                 \<lparr>bv_buffer = 0, byteOffset = 0 + length vertex_bytes + length normal_bytes,
                   byteLength = length index_bytes, target = Some 34963\<rparr>]"
    "g_accessors doc =
                [\<lparr>bufferView = 0, componentType = 5126,
                   acc_count = length (all_vertices (geometry_v2 p grid_size column_spacing)),
                   acc_type = ''VEC3'', acc_max = None, acc_min = None\<rparr>,
                 \<lparr>bufferView = 1, componentType = 5126,
                   acc_count = length normals, acc_type = ''VEC3'',
                   acc_max = None, acc_min = None\<rparr>,
                 \<lparr>bufferView = 2, componentType = 5125,
                   acc_count = length (all_indices (geometry_v2 p grid_size column_spacing)),
                   acc_type = ''SCALAR'', acc_max = None, acc_min = None\<rparr>]"
    unfolding generate_v2_def Let_def
    by (auto split: sum.splits)
  have lv: "length vertex_bytes
      = 12 * length (all_vertices (geometry_v2 p grid_size column_spacing))"
    using r(2) pack_3f_length by (rule join_packed_length [rotated])
  have ln: "length normal_bytes = 12 * length normals"
    using r(3) pack_3f_length by (rule join_packed_length [rotated])
  have li: "length index_bytes
      = 4 * length (all_indices (geometry_v2 p grid_size column_spacing))"
    using r(4) pack_I_length by (rule join_packed_length [rotated])
  have "views_contiguous []" "sum_list (map byteLength []) = 0"
    by (simp_all add: views_contiguous_def)
  then have c: "views_contiguous (g_bufferViews doc)"
    unfolding r(7) by (rule views_contiguous_append)
  have a: "accessors_exact (g_bufferViews doc) (g_accessors doc)"
    unfolding accessors_exact_def r(8)
    by (simp add: r(7) element_bytes_def arity_def component_bytes_def lv ln li)
  have s: "sum_list (map byteLength (g_bufferViews doc)) = g_byteLength doc"
    by (simp add: r(6) r(7))
  show ?thesis
    using s c a contiguous_disjoint [OF c] by (simp add: byte_exact_def r(5) r(6))
qed

lemma generate_v2_layout:
  assumes "generate_v2 p grid_size = Inr doc"
  shows "\<exists>column_spacing bs.
           py_truediv (building_width p) (grid_size - 1) = Inr column_spacing
         \<and> mesh_bytes (all_vertices (geometry_v2 p grid_size column_spacing),
                        all_indices (geometry_v2 p grid_size column_spacing), []) = Inr bs
         \<and> g_buffer doc = bs"
proof -
  from assms obtain column_spacing normals vertex_bytes normal_bytes index_bytes where r:
    "py_truediv (building_width p) (grid_size - 1) = Inr column_spacing"
    "compute_normals (all_vertices (geometry_v2 p grid_size column_spacing))
       (all_indices (geometry_v2 p grid_size column_spacing)) = Inr normals"
    "join_packed pack_3f (all_vertices (geometry_v2 p grid_size column_spacing)) = Inr vertex_bytes"
    "join_packed pack_3f normals = Inr normal_bytes"
    "join_packed pack_I (all_indices (geometry_v2 p grid_size column_spacing)) = Inr index_bytes"
    "g_buffer doc = vertex_bytes @ normal_bytes @ index_bytes"
    unfolding generate_v2_def Let_def
    by (auto split: sum.splits)
  have "mesh_bytes (all_vertices (geometry_v2 p grid_size column_spacing),
                    all_indices (geometry_v2 p grid_size column_spacing), [])
          = Inr (vertex_bytes @ normal_bytes @ index_bytes)"
    by (simp add: mesh_bytes_def r)
  then show ?thesis using r(1) r(6) by blast
qed

subsection \<open>Byte-exactness\<close>

text \<open>
  C2. For any two lists of mesh groups appended in order by \<^verbatim>\<open>append_mesh\<close> from the empty
  packer (the two loops of v3), the emitted document is byte-exact: the buffer is, for each
  group in order, its positions, its normals and its indices with nothing between them;
  the byte lengths of the buffer views add up to the buffer's length, each view starts
  where the previous ones end, no two views overlap, and each accessor's count times its
  element size (12 bytes for a VEC3 of floats, 4 for an unsigned 32-bit scalar) is the
  byte length of its view. There are three views and three accessors per group.
\<close>

theorem packer_byte_exact:
  assumes "append_all gs0 l0 packer_init = Inr st1" "append_all gs1 l1 st1 = Inr st2"
  shows "byte_exact (emit_gltf st2)
       \<and> (\<exists>bss. map (mesh_bytes \<circ> snd) (gs0 @ gs1) = map Inr bss
                 \<and> g_buffer (emit_gltf st2) = concat bss)
       \<and> length (g_bufferViews (emit_gltf st2)) = 3 * length (gs0 @ gs1)
       \<and> length (g_accessors (emit_gltf st2)) = 3 * length (gs0 @ gs1)"
proof -
  have "packer_inv st1"
    using assms(1) packer_init_inv by (rule append_all_inv)
  with assms(2) have "packer_inv st2"
    by (rule append_all_inv)
  then have e: "byte_exact (emit_gltf st2)"
    by (rule packer_inv_exact)
  from append_all_buffer [OF assms(1)]
  obtain bss0 where b0: "map (mesh_bytes \<circ> snd) gs0 = map Inr bss0"
    "all_buffer st1 = all_buffer packer_init @ concat bss0"
    by blast
  from append_all_buffer [OF assms(2)]
  obtain bss1 where b1: "map (mesh_bytes \<circ> snd) gs1 = map Inr bss1"
    "all_buffer st2 = all_buffer st1 @ concat bss1"
    by blast
  have "map (mesh_bytes \<circ> snd) (gs0 @ gs1) = map Inr (bss0 @ bss1)"
    by (simp add: b0(1) b1(1))
  moreover have "g_buffer (emit_gltf st2) = concat (bss0 @ bss1)"
    by (simp add: emit_gltf_def b0(2) b1(2) packer_init_def)
  ultimately have l: "\<exists>bss. map (mesh_bytes \<circ> snd) (gs0 @ gs1) = map Inr bss
                 \<and> g_buffer (emit_gltf st2) = concat bss"
    by blast
  have c: "length (g_bufferViews (emit_gltf st2)) = 3 * length (gs0 @ gs1)"
    "length (g_accessors (emit_gltf st2)) = 3 * length (gs0 @ gs1)"
    using append_all_counts [OF assms(1)] append_all_counts [OF assms(2)]
    by (simp_all add: emit_gltf_def packer_init_def)
  show ?thesis using e l c by blast
qed

text \<open>A triangle at level 0, then a single vertex with no triangle at level 1.\<close>

lemma packer_example:
  "\<exists>st1 st2.
      append_all [(''Tri'', [(0, 0, 0), (1, 0, 0), (0, 1, 0)], [0, 1, 2], ''structure'')]
        0 packer_init = Inr st1
    \<and> append_all [(''Dot'', [(0, 0, 0)], [], ''spatial'')] 1 st1 = Inr st2
    \<and> map byteLength (bufferViews st2) = [36, 36, 12, 12, 12, 0]
    \<and> map byteOffset (bufferViews st2) = [0, 36, 72, 84, 96, 108]
    \<and> map acc_count (accessors st2) = [3, 3, 3, 1, 1, 0]
    \<and> length (all_buffer st2) = 108"
  by (simp add: append_mesh_def compute_normals_def py_pos_def bump_def pack_f_def pack_I_def
      packer_init_def Let_def)

theorem packer_byte_exact_witness:
  "\<exists>st1 st2.
      append_all [(''Tri'', [(0, 0, 0), (1, 0, 0), (0, 1, 0)], [0, 1, 2], ''structure'')]
        0 packer_init = Inr st1
    \<and> append_all [(''Dot'', [(0, 0, 0)], [], ''spatial'')] 1 st1 = Inr st2
    \<and> byte_exact (emit_gltf st2)
    \<and> map byteLength (g_bufferViews (emit_gltf st2)) = [36, 36, 12, 12, 12, 0]
    \<and> map byteOffset (g_bufferViews (emit_gltf st2)) = [0, 36, 72, 84, 96, 108]
    \<and> map acc_count (g_accessors (emit_gltf st2)) = [3, 3, 3, 1, 1, 0]
    \<and> g_byteLength (emit_gltf st2) = 108"
proof -
  from packer_example obtain st1 st2 where s:
    "append_all [(''Tri'', [(0, 0, 0), (1, 0, 0), (0, 1, 0)], [0, 1, 2], ''structure'')]
        0 packer_init = Inr st1
    \<and> append_all [(''Dot'', [(0, 0, 0)], [], ''spatial'')] 1 st1 = Inr st2
    \<and> map byteLength (bufferViews st2) = [36, 36, 12, 12, 12, 0]
    \<and> map byteOffset (bufferViews st2) = [0, 36, 72, 84, 96, 108]
    \<and> map acc_count (accessors st2) = [3, 3, 3, 1, 1, 0]
    \<and> length (all_buffer st2) = 108"
    by (elim exE)
  note s1 = s [THEN conjunct1] and s2 = s [THEN conjunct2, THEN conjunct1]
  have "byte_exact (emit_gltf st2)"
    using packer_byte_exact [OF s1 s2] by (rule conjunct1)
  then show ?thesis
    using s by (intro exI [of _ st1] exI [of _ st2]) (simp add: emit_gltf_def)
qed

section \<open>Empty groups\<close>

lemma compute_normals_empty: "compute_normals [] [] = Inr []"
  by (simp add: compute_normals_def)

text \<open>
  C7 as the code has it. \<^verbatim>\<open>append_mesh\<close> has no test for an empty group: for a group with
  no vertex and no index it leaves the buffer as it is and appends three buffer views of
  byte length 0, three accessors of count 0, one mesh and one node.
\<close>

theorem empty_group_emitted:
  "append_mesh name ([], [], semantic) lod_level st =
     Inr \<lparr>all_buffer = all_buffer st,
          bufferViews = bufferViews st @
            [\<lparr>bv_buffer = 0, byteOffset = length (all_buffer st), byteLength = 0,
               target = None\<rparr>,
             \<lparr>bv_buffer = 0, byteOffset = length (all_buffer st), byteLength = 0,
               target = None\<rparr>,
             \<lparr>bv_buffer = 0, byteOffset = length (all_buffer st), byteLength = 0,
               target = None\<rparr>],
          accessors = accessors st @
            [\<lparr>bufferView = length (bufferViews st), componentType = 5126, acc_count = 0,
               acc_type = ''VEC3'', acc_max = None, acc_min = None\<rparr>,
             \<lparr>bufferView = length (bufferViews st) + 1, componentType = 5126, acc_count = 0,
               acc_type = ''VEC3'', acc_max = None, acc_min = None\<rparr>,
             \<lparr>bufferView = length (bufferViews st) + 2, componentType = 5125, acc_count = 0,
               acc_type = ''SCALAR'', acc_max = None, acc_min = None\<rparr>],
          meshes = meshes st @
            [[\<lparr>POSITION = length (accessors st), NORMAL = Some (length (accessors st) + 1),
                prim_indices = length (accessors st) + 2, prim_material = None\<rparr>]],
          nodes = nodes st @
            [\<lparr>node_mesh = length (meshes st),
               node_name = Some (name @ ''_LOD'' @ str_nat lod_level),
               node_extras = Some (semantic, lod_level)\<rparr>]\<rparr>"
  by (simp add: append_mesh_def compute_normals_empty Let_def)

text \<open>The empty core group at level 1, appended to the empty packer.\<close>

theorem empty_group_emitted_witness:
  "append_mesh ''Core'' ([], [], ''structure'') 1 packer_init =
     Inr \<lparr>all_buffer = [],
          bufferViews =
            [\<lparr>bv_buffer = 0, byteOffset = 0, byteLength = 0, target = None\<rparr>,
             \<lparr>bv_buffer = 0, byteOffset = 0, byteLength = 0, target = None\<rparr>,
             \<lparr>bv_buffer = 0, byteOffset = 0, byteLength = 0, target = None\<rparr>],
          accessors =
            [\<lparr>bufferView = 0, componentType = 5126, acc_count = 0,
               acc_type = ''VEC3'', acc_max = None, acc_min = None\<rparr>,
             \<lparr>bufferView = 1, componentType = 5126, acc_count = 0,
               acc_type = ''VEC3'', acc_max = None, acc_min = None\<rparr>,
             \<lparr>bufferView = 2, componentType = 5125, acc_count = 0,
               acc_type = ''SCALAR'', acc_max = None, acc_min = None\<rparr>],
          meshes =
            [[\<lparr>POSITION = 0, NORMAL = Some 1, prim_indices = 2, prim_material = None\<rparr>]],
          nodes =
            [\<lparr>node_mesh = 0, node_name = Some ''Core_LOD1'',
               node_extras = Some (''structure'', 1)\<rparr>]\<rparr>"
  using empty_group_emitted [of "''Core''" "''structure''" 1 packer_init]
  by (simp add: packer_init_def)

text \<open>
  The empty \<^verbatim>\<open>Columns\<close> group (what \<^verbatim>\<open>build_structure\<close> returns for a single floor) is not
  skipped: the packer is not left as it was.
\<close>

theorem empty_group_skipped_counterexample:
  "append_mesh ''Columns'' ([], [], ''structure'') 0 packer_init =
     Inr \<lparr>all_buffer = [],
          bufferViews =
            [\<lparr>bv_buffer = 0, byteOffset = 0, byteLength = 0, target = None\<rparr>,
             \<lparr>bv_buffer = 0, byteOffset = 0, byteLength = 0, target = None\<rparr>,
             \<lparr>bv_buffer = 0, byteOffset = 0, byteLength = 0, target = None\<rparr>],
          accessors =
            [\<lparr>bufferView = 0, componentType = 5126, acc_count = 0,
               acc_type = ''VEC3'', acc_max = None, acc_min = None\<rparr>,
             \<lparr>bufferView = 1, componentType = 5126, acc_count = 0,
               acc_type = ''VEC3'', acc_max = None, acc_min = None\<rparr>,
             \<lparr>bufferView = 2, componentType = 5125, acc_count = 0,
               acc_type = ''SCALAR'', acc_max = None, acc_min = None\<rparr>],
          meshes =
            [[\<lparr>POSITION = 0, NORMAL = Some 1, prim_indices = 2, prim_material = None\<rparr>]],
          nodes =
            [\<lparr>node_mesh = 0, node_name = Some ''Columns_LOD0'',
               node_extras = Some (''structure'', 0)\<rparr>]\<rparr>
   \<and> append_mesh ''Columns'' ([], [], ''structure'') 0 packer_init \<noteq> Inr packer_init"
  by (simp add: append_mesh_def compute_normals_empty packer_init_def Let_def)

section \<open>Grid resolution 1\<close>







section \<open>What the layout emits\<close>

lemma py_range_length: "length (py_range n) = nat n"
  by (simp add: py_range_def)

lemma structural_floors:
  "length (filter (\<lambda>f. f < n - 1) (py_range n)) = nat (n - 1)"
proof (cases "1 \<le> n")
  case True
  then have "py_range n = [0..n - 2] @ [n - 1]"
    unfolding py_range_def using upto_rec2 [of 0 "n - 1"] by (simp add: algebra_simps)
  moreover have "filter (\<lambda>f. f < n - 1) [0..n - 2] = [0..n - 2]"
    by (rule filter_True) auto
  ultimately show ?thesis by simp
next
  case False
  then show ?thesis by (simp add: py_range_def)
qed

lemma create_box_is_box: "is_box (create_box w h d tx ty tz)"
  by (simp add: is_box_def create_box_length)

lemma boxes_are_boxes:
  "is_box (slab_box p y)" "is_box (spatial_box p y)" "is_box (column_box p s y gx gz)"
  "is_box (beam_x_box p s y gz gx)" "is_box (beam_z_box p s y gx gz)"
  "is_box (brace_box p s y)" "is_box (wall_box p f)" "is_box (core_box p f)"
  by (simp_all add: slab_box_def spatial_box_def column_box_def beam_x_box_def beam_z_box_def
      brace_box_def wall_box_def core_box_def Let_def create_box_is_box)

lemma add_holds:
  assumes "is_box m" "holds_boxes s k"
  shows "holds_boxes (add m s) (Suc k)"
  using assms by (simp add: holds_boxes_def is_box_def add_fst add_snd)

lemma fold_add_holds:
  assumes "\<And>x. is_box (g x)" "holds_boxes s k"
  shows "holds_boxes (fold (\<lambda>x. add (g x)) xs s) (k + length xs)"
  using assms(2)
proof (induction xs arbitrary: s k)
  case Nil
  then show ?case by simp
next
  case (Cons x xs)
  have "holds_boxes (add (g x) s) (Suc k)"
    using assms(1) Cons.prems by (rule add_holds)
  from Cons.IH [OF this] show ?case by simp
qed

lemma fold2_add_holds:
  assumes "\<And>x y. is_box (g x y)" "holds_boxes s k"
  shows "holds_boxes (fold (\<lambda>x. fold (\<lambda>y. add (g x y)) ys) xs s) (k + length xs * length ys)"
  using assms(2)
proof (induction xs arbitrary: s k)
  case Nil
  then show ?case by simp
next
  case (Cons x xs)
  have "holds_boxes (fold (\<lambda>y. add (g x y)) ys s) (k + length ys)"
    using assms(1) Cons.prems by (rule fold_add_holds)
  from Cons.IH [OF this] show ?case by (simp add: algebra_simps)
qed

lemma floor_v3_sel:
  "slabs (floor_v3 p n sp f st) = add (slab_box p (real_of_int f * floor_height p)) (slabs st)"
  "spatial (floor_v3 p n sp f st)
     = add (spatial_box p (real_of_int f * floor_height p)) (spatial st)"
  "cols (floor_v3 p n sp f st) =
     (if f < floors p - 1
      then fold (\<lambda>gx. fold (\<lambda>gz. add (column_box p sp (real_of_int f * floor_height p) gx gz))
                   (py_range n)) (py_range n) (cols st)
      else cols st)"
  "beams (floor_v3 p n sp f st) =
     (if f < floors p - 1
      then fold (\<lambda>gz. fold (\<lambda>gx. add (beam_x_box p sp (real_of_int f * floor_height p) gz gx))
                   (py_range (n - 1))) (py_range n) (beams st)
      else beams st)"
  "core (floor_v3 p n sp f st) = core st"
  "walls (floor_v3 p n sp f st) = walls st"
  by (simp_all add: floor_v3_def Let_def)

lemma floors_v3_holds:
  assumes "holds_boxes (slabs st) a" "holds_boxes (spatial st) b"
    "holds_boxes (cols st) c" "holds_boxes (beams st) d"
  shows "holds_boxes (slabs (fold (floor_v3 p n sp) fs st)) (a + length fs)
       \<and> holds_boxes (spatial (fold (floor_v3 p n sp) fs st)) (b + length fs)
       \<and> holds_boxes (cols (fold (floor_v3 p n sp) fs st))
           (c + length (filter (\<lambda>f. f < floors p - 1) fs) * (nat n * nat n))
       \<and> holds_boxes (beams (fold (floor_v3 p n sp) fs st))
           (d + length (filter (\<lambda>f. f < floors p - 1) fs) * (nat n * nat (n - 1)))
       \<and> core (fold (floor_v3 p n sp) fs st) = core st
       \<and> walls (fold (floor_v3 p n sp) fs st) = walls st"
  using assms
proof (induction fs arbitrary: st a b c d)
  case Nil
  then show ?case by simp
next
  case (Cons f fs)
  let ?st = "floor_v3 p n sp f st"
  let ?k = "if f < floors p - 1 then 1 else (0::nat)"
  have s: "holds_boxes (slabs ?st) (Suc a)"
    unfolding floor_v3_sel using boxes_are_boxes(1) Cons.prems(1) by (rule add_holds)
  have z: "holds_boxes (spatial ?st) (Suc b)"
    unfolding floor_v3_sel using boxes_are_boxes(2) Cons.prems(2) by (rule add_holds)
  have c: "holds_boxes (cols ?st) (c + ?k * (nat n * nat n))"
  proof (cases "f < floors p - 1")
    case True
    have "holds_boxes (fold (\<lambda>gx. fold (\<lambda>gz. add (column_box p sp
        (real_of_int f * floor_height p) gx gz)) (py_range n)) (py_range n) (cols st))
        (c + length (py_range n) * length (py_range n))"
      using boxes_are_boxes(3) Cons.prems(3) by (rule fold2_add_holds)
    then show ?thesis using True by (simp add: floor_v3_sel py_range_length)
  next
    case False
    then show ?thesis using Cons.prems(3) by (simp add: floor_v3_sel)
  qed
  have d: "holds_boxes (beams ?st) (d + ?k * (nat n * nat (n - 1)))"
  proof (cases "f < floors p - 1")
    case True
    have "holds_boxes (fold (\<lambda>gz. fold (\<lambda>gx. add (beam_x_box p sp
        (real_of_int f * floor_height p) gz gx)) (py_range (n - 1))) (py_range n) (beams st))
        (d + length (py_range n) * length (py_range (n - 1)))"
      using boxes_are_boxes(4) Cons.prems(4) by (rule fold2_add_holds)
    then show ?thesis using True by (simp add: floor_v3_sel py_range_length)
  next
    case False
    then show ?thesis using Cons.prems(4) by (simp add: floor_v3_sel)
  qed
  from Cons.IH [OF s z c d] show ?case
    by (cases "f < floors p - 1") (simp_all add: algebra_simps floor_v3_sel(5,6))
qed

lemma holds_empty: "holds_boxes ([], []) 0"
  by (simp add: holds_boxes_def)

lemma build_structure_counts:
  assumes "grid_size \<noteq> 1"
  shows "\<exists>sl co be cr wa sp.
      build_structure p grid_size =
        Inr [(''Slabs'', fst sl, snd sl, ''structure''),
             (''Columns'', fst co, snd co, ''structure''),
             (''Beams'', fst be, snd be, ''structure''),
             (''Core'', fst cr, snd cr, ''structure''),
             (''Walls'', fst wa, snd wa, ''structure''),
             (''SpatialZones'', fst sp, snd sp, ''spatial'')]
    \<and> holds_boxes sl (nat (floors p))
    \<and> holds_boxes co (nat (floors p - 1) * (nat grid_size * nat grid_size))
    \<and> holds_boxes be (nat (floors p - 1) * (nat grid_size * nat (grid_size - 1)))
    \<and> holds_boxes cr (nat (floors p - 1))
    \<and> holds_boxes wa (nat (floors p - 1))
    \<and> holds_boxes sp (nat (floors p))"
proof -
  define spacing where "spacing = building_width p / real_of_int (grid_size - 1)"
  define st where "st = fold (floor_v3 p grid_size spacing) (py_range (floors p)) stores_init"
  have d: "py_truediv (building_width p) (grid_size - 1) = Inr spacing"
    using assms by (simp add: py_truediv_def spacing_def)
  have i: "holds_boxes (slabs stores_init) 0" "holds_boxes (spatial stores_init) 0"
    "holds_boxes (cols stores_init) 0" "holds_boxes (beams stores_init) 0"
    by (simp_all add: stores_init_def holds_empty)
  from floors_v3_holds [OF i, of p grid_size spacing "py_range (floors p)"]
  have f: "holds_boxes (slabs st) (nat (floors p))"
    "holds_boxes (spatial st) (nat (floors p))"
    "holds_boxes (cols st) (nat (floors p - 1) * (nat grid_size * nat grid_size))"
    "holds_boxes (beams st) (nat (floors p - 1) * (nat grid_size * nat (grid_size - 1)))"
    "core st = ([], [])" "walls st = ([], [])"
    by (simp_all add: st_def py_range_length structural_floors stores_init_def)
  have cr: "holds_boxes (fold (\<lambda>f. add (core_box p f)) (py_range (floors p - 1)) (core st))
      (0 + length (py_range (floors p - 1)))"
    unfolding f(5) using boxes_are_boxes(8) holds_empty by (rule fold_add_holds)
  have wa: "holds_boxes (fold (\<lambda>f. add (wall_box p f)) (py_range (floors p - 1)) (walls st))
      (0 + length (py_range (floors p - 1)))"
    unfolding f(6) using boxes_are_boxes(7) holds_empty by (rule fold_add_holds)
  have "build_structure p grid_size =
        Inr [(''Slabs'', fst (slabs st), snd (slabs st), ''structure''),
             (''Columns'', fst (cols st), snd (cols st), ''structure''),
             (''Beams'', fst (beams st), snd (beams st), ''structure''),
             (''Core'', fst (fold (\<lambda>f. add (core_box p f)) (py_range (floors p - 1)) (core st)),
                snd (fold (\<lambda>f. add (core_box p f)) (py_range (floors p - 1)) (core st)),
                ''structure''),
             (''Walls'', fst (fold (\<lambda>f. add (wall_box p f)) (py_range (floors p - 1)) (walls st)),
                snd (fold (\<lambda>f. add (wall_box p f)) (py_range (floors p - 1)) (walls st)),
                ''structure''),
             (''SpatialZones'', fst (spatial st), snd (spatial st), ''spatial'')]"
    by (simp add: build_structure_def d Let_def st_def)
  then show ?thesis
    using f(1-4) cr wa by (auto simp: py_range_length)
qed

text \<open>
  C4 on v3. With the parameters of the source and grid resolution 5, \<^verbatim>\<open>build_structure\<close>
  returns 5 slabs (40 vertices), 100 columns (800 vertices), 4 core boxes, 4 wall boxes
  and 5 spatial zones, and 80 beams (640 vertices): its beam loop runs along one axis
  only, 5 lines of 4 intervals on each of the 4 structural floors.
\<close>

theorem v3_layout_counts:
  "\<exists>sl co be cr wa sp.
      build_structure source_params 5 =
        Inr [(''Slabs'', fst sl, snd sl, ''structure''),
             (''Columns'', fst co, snd co, ''structure''),
             (''Beams'', fst be, snd be, ''structure''),
             (''Core'', fst cr, snd cr, ''structure''),
             (''Walls'', fst wa, snd wa, ''structure''),
             (''SpatialZones'', fst sp, snd sp, ''spatial'')]
    \<and> holds_boxes sl 5 \<and> length (fst sl) = 40
    \<and> holds_boxes co 100 \<and> length (fst co) = 800
    \<and> holds_boxes be 80 \<and> length (fst be) = 640
    \<and> holds_boxes cr 4
    \<and> holds_boxes wa 4
    \<and> holds_boxes sp 5"
proof -
  have "(5::int) \<noteq> 1" by simp
  from build_structure_counts [OF this, of source_params]
  obtain sl co be cr wa sp where r:
    "build_structure source_params 5 =
        Inr [(''Slabs'', fst sl, snd sl, ''structure''),
             (''Columns'', fst co, snd co, ''structure''),
             (''Beams'', fst be, snd be, ''structure''),
             (''Core'', fst cr, snd cr, ''structure''),
             (''Walls'', fst wa, snd wa, ''structure''),
             (''SpatialZones'', fst sp, snd sp, ''spatial'')]
    \<and> holds_boxes sl (nat (floors source_params))
    \<and> holds_boxes co (nat (floors source_params - 1) * (nat 5 * nat 5))
    \<and> holds_boxes be (nat (floors source_params - 1) * (nat 5 * nat (5 - 1)))
    \<and> holds_boxes cr (nat (floors source_params - 1))
    \<and> holds_boxes wa (nat (floors source_params - 1))
    \<and> holds_boxes sp (nat (floors source_params))"
    by (elim exE)
  have f: "nat (floors source_params) = 5" "nat (floors source_params - 1) = 4"
    by (simp_all add: source_params_def)
  have n: "nat 5 * nat 5 = 25" "nat 5 * nat (5 - 1) = 20"
    by simp_all
  have "build_structure source_params 5 =
        Inr [(''Slabs'', fst sl, snd sl, ''structure''),
             (''Columns'', fst co, snd co, ''structure''),
             (''Beams'', fst be, snd be, ''structure''),
             (''Core'', fst cr, snd cr, ''structure''),
             (''Walls'', fst wa, snd wa, ''structure''),
             (''SpatialZones'', fst sp, snd sp, ''spatial'')]
    \<and> holds_boxes sl 5 \<and> length (fst sl) = 40
    \<and> holds_boxes co 100 \<and> length (fst co) = 800
    \<and> holds_boxes be 80 \<and> length (fst be) = 640
    \<and> holds_boxes cr 4
    \<and> holds_boxes wa 4
    \<and> holds_boxes sp 5"
    using r unfolding f n by (simp add: holds_boxes_def)
  then show ?thesis by (intro exI)
qed

subsection \<open>The merged mesh of the first two scripts\<close>

lemma add_mesh_boxes:
  assumes "is_box m" "accum_boxes a k"
  shows "accum_boxes (add_mesh m a) (Suc k)"
  using assms by (simp add: accum_boxes_def is_box_def add_mesh_sel)

lemma fold_add_mesh_boxes:
  assumes "\<And>x. is_box (g x)" "accum_boxes a k"
  shows "accum_boxes (fold (\<lambda>x. add_mesh (g x)) xs a) (k + length xs)"
  using assms(2)
proof (induction xs arbitrary: a k)
  case Nil
  then show ?case by simp
next
  case (Cons x xs)
  have "accum_boxes (add_mesh (g x) a) (Suc k)"
    using assms(1) Cons.prems by (rule add_mesh_boxes)
  from Cons.IH [OF this] show ?case by simp
qed

lemma fold2_add_mesh_boxes:
  assumes "\<And>x y. is_box (g x y)" "accum_boxes a k"
  shows "accum_boxes (fold (\<lambda>x. fold (\<lambda>y. add_mesh (g x y)) ys) xs a)
           (k + length xs * length ys)"
  using assms(2)
proof (induction xs arbitrary: a k)
  case Nil
  then show ?case by simp
next
  case (Cons x xs)
  have "accum_boxes (fold (\<lambda>y. add_mesh (g x y)) ys a) (k + length ys)"
    using assms(1) Cons.prems by (rule fold_add_mesh_boxes)
  from Cons.IH [OF this] show ?case by (simp add: algebra_simps)
qed

lemma columns_loop_boxes:
  assumes "accum_boxes a k"
  shows "accum_boxes (columns_loop p n sp y a) (k + nat n * nat n)"
proof -
  have "accum_boxes (fold (\<lambda>gx. fold (\<lambda>gz. add_mesh (column_box p sp y gx gz)) (py_range n))
      (py_range n) a) (k + length (py_range n) * length (py_range n))"
    using boxes_are_boxes(3) assms by (rule fold2_add_mesh_boxes)
  then show ?thesis by (simp add: columns_loop_def py_range_length)
qed

lemma beams_x_loop_boxes:
  assumes "accum_boxes a k"
  shows "accum_boxes (beams_x_loop p n sp y a) (k + nat n * nat (n - 1))"
proof -
  have "accum_boxes (fold (\<lambda>gz. fold (\<lambda>gx. add_mesh (beam_x_box p sp y gz gx))
      (py_range (n - 1))) (py_range n) a) (k + length (py_range n) * length (py_range (n - 1)))"
    using boxes_are_boxes(4) assms by (rule fold2_add_mesh_boxes)
  then show ?thesis by (simp add: beams_x_loop_def py_range_length)
qed

lemma beams_z_loop_boxes:
  assumes "accum_boxes a k"
  shows "accum_boxes (beams_z_loop p n sp y a) (k + nat n * nat (n - 1))"
proof -
  have "accum_boxes (fold (\<lambda>gx. fold (\<lambda>gz. add_mesh (beam_z_box p sp y gx gz))
      (py_range (n - 1))) (py_range n) a) (k + length (py_range n) * length (py_range (n - 1)))"
    using boxes_are_boxes(5) assms by (rule fold2_add_mesh_boxes)
  then show ?thesis by (simp add: beams_z_loop_def py_range_length)
qed

lemma floor_v1_boxes:
  assumes "accum_boxes a k"
  shows "accum_boxes (floor_v1 p n sp f a)
     (k + 1 + (if f < floors p - 1 then nat n * nat n + (nat n * nat (n - 1) + nat n * nat (n - 1)) else 0))"
proof -
  let ?y = "real_of_int f * floor_height p"
  have s: "accum_boxes (add_mesh (slab_box p ?y) a) (Suc k)"
    using boxes_are_boxes(1) assms by (rule add_mesh_boxes)
  show ?thesis
  proof (cases "f < floors p - 1")
    case True
    from beams_z_loop_boxes [OF beams_x_loop_boxes [OF columns_loop_boxes [OF s]]]
    have "accum_boxes (beams_z_loop p n sp ?y (beams_x_loop p n sp ?y
        (columns_loop p n sp ?y (add_mesh (slab_box p ?y) a))))
        (Suc k + nat n * nat n + nat n * nat (n - 1) + nat n * nat (n - 1))" .
    then show ?thesis using True by (simp add: floor_v1_def Let_def add.assoc)
  next
    case False
    then show ?thesis using s by (simp add: floor_v1_def Let_def)
  qed
qed

lemma floor_v2_boxes:
  assumes "accum_boxes a k"
  shows "accum_boxes (floor_v2 p n sp f a)
     (k + 1 + (if f < floors p - 1 then nat n * nat n + (nat n * nat (n - 1) + nat n * nat (n - 1)) + 1 else 0))"
proof -
  let ?y = "real_of_int f * floor_height p"
  have s: "accum_boxes (add_mesh (slab_box p ?y) a) (Suc k)"
    using boxes_are_boxes(1) assms by (rule add_mesh_boxes)
  show ?thesis
  proof (cases "f < floors p - 1")
    case True
    from add_mesh_boxes [OF boxes_are_boxes(6)
        beams_z_loop_boxes [OF beams_x_loop_boxes [OF columns_loop_boxes [OF s]]]]
    have "accum_boxes (add_mesh (brace_box p sp ?y) (beams_z_loop p n sp ?y
        (beams_x_loop p n sp ?y (columns_loop p n sp ?y (add_mesh (slab_box p ?y) a)))))
        (Suc (Suc k + nat n * nat n + nat n * nat (n - 1) + nat n * nat (n - 1)))" .
    then show ?thesis using True by (simp add: floor_v2_def Let_def add.assoc)
  next
    case False
    then show ?thesis using s by (simp add: floor_v2_def Let_def)
  qed
qed

lemma fold_floor_boxes:
  assumes "\<And>f a k. accum_boxes a k \<Longrightarrow>
             accum_boxes (step f a) (k + 1 + (if f < m then c else 0))"
    and "accum_boxes a k"
  shows "accum_boxes (fold step fs a) (k + length fs + length (filter (\<lambda>f. f < m) fs) * c)"
  using assms(2)
proof (induction fs arbitrary: a k)
  case Nil
  then show ?case by simp
next
  case (Cons f fs)
  from Cons.IH [OF assms(1) [OF Cons.prems, of f]] show ?case
    by (cases "f < m") (simp_all add: algebra_simps)
qed

lemma accum_init_boxes: "accum_boxes accum_init 0"
  by (simp add: accum_boxes_def accum_init_def)

lemma geometry_v1_boxes:
  "accum_boxes (geometry_v1 p n sp)
     (nat (floors p) + nat (floors p - 1) * (nat n * nat n + (nat n * nat (n - 1) + nat n * nat (n - 1))))"
  using fold_floor_boxes [of "floor_v1 p n sp" "floors p - 1" _ accum_init 0
      "py_range (floors p)", OF floor_v1_boxes accum_init_boxes]
  by (simp add: geometry_v1_def py_range_length structural_floors)

lemma geometry_v2_boxes:
  "accum_boxes (geometry_v2 p n sp)
     (nat (floors p) + nat (floors p - 1) * (nat n * nat n + (nat n * nat (n - 1) + nat n * nat (n - 1)) + 1)
        + nat (floors p - 1) + nat (floors p - 1))"
proof -
  let ?a = "fold (floor_v2 p n sp) (py_range (floors p)) accum_init"
  have a: "accum_boxes ?a
     (nat (floors p) + nat (floors p - 1) * (nat n * nat n + (nat n * nat (n - 1) + nat n * nat (n - 1)) + 1))"
    using fold_floor_boxes [of "floor_v2 p n sp" "floors p - 1" _ accum_init 0
        "py_range (floors p)", OF floor_v2_boxes accum_init_boxes]
    by (simp add: py_range_length structural_floors)
  have w: "accum_boxes (fold (\<lambda>f. add_mesh (wall_box p f)) (py_range (floors p - 1)) ?a)
     (nat (floors p) + nat (floors p - 1) * (nat n * nat n + (nat n * nat (n - 1) + nat n * nat (n - 1)) + 1)
        + length (py_range (floors p - 1)))"
    using boxes_are_boxes(7) a by (rule fold_add_mesh_boxes)
  have "accum_boxes (fold (\<lambda>f. add_mesh (core_box p f)) (py_range (floors p - 1))
      (fold (\<lambda>f. add_mesh (wall_box p f)) (py_range (floors p - 1)) ?a))
     (nat (floors p) + nat (floors p - 1) * (nat n * nat n + (nat n * nat (n - 1) + nat n * nat (n - 1)) + 1)
        + length (py_range (floors p - 1)) + length (py_range (floors p - 1)))"
    using boxes_are_boxes(8) w by (rule fold_add_mesh_boxes)
  then show ?thesis
    by (simp add: geometry_v2_def Let_def py_range_length)
qed

text \<open>
  The first script and v2 run the beam loop along both axes: 160 beams on the 4 structural
  floors, next to the 5 slabs and 100 columns (and, in v2, 4 braces, 4 walls and 4 core
  boxes).
\<close>

lemma v1_layout_counts:
  "accum_boxes (geometry_v1 source_params 5 sp) (5 + 100 + 160)"
  using geometry_v1_boxes [of source_params 5 sp]
  by (simp add: source_params_def)

lemma v2_layout_counts:
  "accum_boxes (geometry_v2 source_params 5 sp) (5 + 100 + 160 + 4 + 4 + 4)"
  using geometry_v2_boxes [of source_params 5 sp]
  by (simp add: source_params_def)

lemma v2_beams_per_floor:
  assumes "accum_boxes a k"
  shows "accum_boxes (beams_z_loop p 5 sp y (beams_x_loop p 5 sp y a)) (k + 20 + 20)"
proof -
  have "accum_boxes (beams_x_loop p 5 sp y a) (k + nat 5 * nat (5 - 1))"
    using assms by (rule beams_x_loop_boxes)
  then have "accum_boxes (beams_z_loop p 5 sp y (beams_x_loop p 5 sp y a))
      (k + nat 5 * nat (5 - 1) + nat 5 * nat (5 - 1))"
    by (rule beams_z_loop_boxes)
  then show ?thesis by simp
qed

section \<open>Bounds of the position accessor\<close>

lemma append_mesh_no_bounds:
  assumes "append_mesh name data lod_level st = Inr st'" "list_all no_bounds (accessors st)"
  shows "list_all no_bounds (accessors st')"
proof -
  obtain verts inds semantic where data: "data = (verts, inds, semantic)"
    by (cases data)
  from assms(1) [unfolded data] assms(2) show ?thesis
    by (auto elim!: append_mesh_result simp: no_bounds_def)
qed

lemma append_all_no_bounds:
  "append_all gs lod_level st = Inr st' \<Longrightarrow> list_all no_bounds (accessors st)
     \<Longrightarrow> list_all no_bounds (accessors st')"
proof (induction gs arbitrary: st)
  case Nil
  then show ?case by simp
next
  case (Cons g gs)
  obtain name data where g: "g = (name, data)" by (cases g)
  from Cons.prems(1) obtain st1 where
    s: "append_mesh name data lod_level st = Inr st1" "append_all gs lod_level st1 = Inr st'"
    by (auto simp: g split: sum.splits)
  have "list_all no_bounds (accessors st1)"
    using s(1) Cons.prems(2) by (rule append_mesh_no_bounds)
  then show ?case
    using Cons.IH s(2) by blast
qed

text \<open>
  C8 on v3. No accessor that \<^verbatim>\<open>append_mesh\<close> emits declares bounds: in the document of
  v3 the position accessors have no minimum and no maximum, like the normal and index
  accessors.
\<close>

theorem v3_accessors_without_bounds:
  assumes "append_all gs0 l0 packer_init = Inr st1" "append_all gs1 l1 st1 = Inr st2"
  shows "list_all no_bounds (g_accessors (emit_gltf st2))"
proof -
  have "list_all no_bounds (accessors packer_init)"
    by (simp add: packer_init_def)
  with assms(1) have "list_all no_bounds (accessors st1)"
    by (rule append_all_no_bounds)
  with assms(2) have "list_all no_bounds (accessors st2)"
    by (rule append_all_no_bounds)
  then show ?thesis by (simp add: emit_gltf_def)
qed

text \<open>One triangle packed at level 0.\<close>

lemma bounds_example:
  "\<exists>st1 st2.
      append_all [(''Tri'', [(0, 0, 0), (1, 0, 0), (0, 1, 0)], [0, 1, 2], ''structure'')]
        0 packer_init = Inr st1
    \<and> append_all [] 1 st1 = Inr st2
    \<and> map acc_type (accessors st2) = [''VEC3'', ''VEC3'', ''SCALAR'']
    \<and> map acc_max (accessors st2) = [None, None, None]
    \<and> map acc_min (accessors st2) = [None, None, None]"
  by (simp add: append_mesh_def compute_normals_def py_pos_def bump_def pack_f_def pack_I_def
      packer_init_def Let_def)

theorem v3_accessors_without_bounds_witness:
  "\<exists>st1 st2.
      append_all [(''Tri'', [(0, 0, 0), (1, 0, 0), (0, 1, 0)], [0, 1, 2], ''structure'')]
        0 packer_init = Inr st1
    \<and> append_all [] 1 st1 = Inr st2
    \<and> list_all no_bounds (g_accessors (emit_gltf st2))
    \<and> map acc_type (g_accessors (emit_gltf st2)) = [''VEC3'', ''VEC3'', ''SCALAR'']
    \<and> map acc_max (g_accessors (emit_gltf st2)) = [None, None, None]
    \<and> map acc_min (g_accessors (emit_gltf st2)) = [None, None, None]"
proof -
  from bounds_example obtain st1 st2 where s:
    "append_all [(''Tri'', [(0, 0, 0), (1, 0, 0), (0, 1, 0)], [0, 1, 2], ''structure'')]
        0 packer_init = Inr st1
    \<and> append_all [] 1 st1 = Inr st2
    \<and> map acc_type (accessors st2) = [''VEC3'', ''VEC3'', ''SCALAR'']
    \<and> map acc_max (accessors st2) = [None, None, None]
    \<and> map acc_min (accessors st2) = [None, None, None]"
    by (elim exE)
  note s1 = s [THEN conjunct1] and s2 = s [THEN conjunct2, THEN conjunct1]
  have "list_all no_bounds (g_accessors (emit_gltf st2))"
    using s1 s2 by (rule v3_accessors_without_bounds)
  then show ?thesis
    using s by (intro exI [of _ st1] exI [of _ st2]) (simp add: emit_gltf_def)
qed

lemma generate_v2_no_bounds:
  "generate_v2 p grid_size = Inr doc \<Longrightarrow> list_all no_bounds (g_accessors doc)"
  unfolding generate_v2_def Let_def
  by (auto split: sum.splits simp: no_bounds_def)

subsection \<open>The first script declares the bounds\<close>

lemma fold_py_max:
  "fold (\<lambda>item m. if item > m then item else m) xs (x::real) = Max (set (x # xs))"
proof -
  have e: "(\<lambda>item m :: real. if item > m then item else m) = max"
    by (intro ext) (simp add: max_def)
  have "fold (\<lambda>item m. if item > m then item else m) xs x = fold max xs x"
    by (simp only: e)
  also have "\<dots> = Max (set (x # xs))"
    by (rule Max.set_eq_fold [symmetric])
  finally show ?thesis .
qed

lemma fold_py_min:
  "fold (\<lambda>item m. if item < m then item else m) xs (x::real) = Min (set (x # xs))"
proof -
  have e: "(\<lambda>item m :: real. if item < m then item else m) = min"
    by (intro ext) (simp add: min_def)
  have "fold (\<lambda>item m. if item < m then item else m) xs x = fold min xs x"
    by (simp only: e)
  also have "\<dots> = Min (set (x # xs))"
    by (rule Min.set_eq_fold [symmetric])
  finally show ?thesis .
qed

lemma py_max_Max: "xs \<noteq> [] \<Longrightarrow> py_max xs = Inr (Max (set xs))"
  by (cases xs) (simp_all add: fold_py_max del: set_simps)

lemma py_min_Min: "xs \<noteq> [] \<Longrightarrow> py_min xs = Inr (Min (set xs))"
  by (cases xs) (simp_all add: fold_py_min del: set_simps)

lemma bounds_max_eq:
  "vs \<noteq> [] \<Longrightarrow> bounds_max vs =
     Inr [Max (coord 0 ` set vs), Max (coord 1 ` set vs), Max (coord 2 ` set vs)]"
  by (simp add: bounds_max_def py_max_Max)

lemma bounds_min_eq:
  "vs \<noteq> [] \<Longrightarrow> bounds_min vs =
     Inr [Min (coord 0 ` set vs), Min (coord 1 ` set vs), Min (coord 2 ` set vs)]"
  by (simp add: bounds_min_def py_min_Min)

lemma bounds_max_empty: "bounds_max [] = Inl ValueError"
  by (simp add: bounds_max_def)

lemma generate_v1_bounds:
  assumes "generate_v1 p grid_size = Inr doc"
  shows "\<exists>column_spacing.
      py_truediv (building_width p) (grid_size - 1) = Inr column_spacing
    \<and> all_vertices (geometry_v1 p grid_size column_spacing) \<noteq> []
    \<and> acc_max (g_accessors doc ! 0) =
        Some [Max (coord 0 ` set (all_vertices (geometry_v1 p grid_size column_spacing))),
              Max (coord 1 ` set (all_vertices (geometry_v1 p grid_size column_spacing))),
              Max (coord 2 ` set (all_vertices (geometry_v1 p grid_size column_spacing)))]
    \<and> acc_min (g_accessors doc ! 0) =
        Some [Min (coord 0 ` set (all_vertices (geometry_v1 p grid_size column_spacing))),
              Min (coord 1 ` set (all_vertices (geometry_v1 p grid_size column_spacing))),
              Min (coord 2 ` set (all_vertices (geometry_v1 p grid_size column_spacing)))]
    \<and> no_bounds (g_accessors doc ! 1)"
proof -
  from assms obtain column_spacing mx mn where r:
    "py_truediv (building_width p) (grid_size - 1) = Inr column_spacing"
    "bounds_max (all_vertices (geometry_v1 p grid_size column_spacing)) = Inr mx"
    "bounds_min (all_vertices (geometry_v1 p grid_size column_spacing)) = Inr mn"
    "acc_max (g_accessors doc ! 0) = Some mx"
    "acc_min (g_accessors doc ! 0) = Some mn"
    "no_bounds (g_accessors doc ! 1)"
    unfolding generate_v1_def Let_def
    by (auto split: sum.splits simp: no_bounds_def)
  have ne: "all_vertices (geometry_v1 p grid_size column_spacing) \<noteq> []"
    using r(2) by (auto simp: bounds_max_empty)
  show ?thesis
    using r ne bounds_max_eq [OF ne] bounds_min_eq [OF ne] by auto
qed

section \<open>The generation returns\<close>

subsection \<open>Packing succeeds on values in range\<close>

lemma pack_f_ok: "\<bar>x\<bar> \<le> 1000 \<Longrightarrow> \<exists>bs. pack_f x = Inr bs"
  by (simp add: pack_f_def)

lemma pack_3f_ok: "bounded 1000 v \<Longrightarrow> \<exists>bs. pack_3f v = Inr bs"
  by (cases v) (simp add: pack_f_def)

lemma pack_I_ok: "0 \<le> i \<Longrightarrow> i < 2 ^ 32 \<Longrightarrow> \<exists>bs. pack_I i = Inr bs"
  by (simp add: pack_I_def)

lemma join_packed_ok:
  assumes "\<And>x. x \<in> set xs \<Longrightarrow> \<exists>bs. f x = Inr bs"
  shows "\<exists>out. join_packed f xs = Inr out"
  using assms
proof (induction xs)
  case Nil
  then show ?case by simp
next
  case (Cons x xs)
  obtain b where b: "f x = Inr b" using Cons.prems by auto
  obtain bs where bs: "join_packed f xs = Inr bs" using Cons by auto
  show ?case by (simp add: b bs)
qed

lemma unit_normal_bounded: "bounded 1000 (unit_normal n)"
proof -
  obtain a b c where n: "n = (a, b, c)" by (cases n)
  let ?s = "sqrt (a ^ 2 + b ^ 2 + c ^ 2)"
  let ?l = "?s + 1 / 1000000"
  have l: "0 < ?l" by (rule denominator_pos)
  have "\<bar>a\<bar> \<le> ?s" "\<bar>b\<bar> \<le> ?s" "\<bar>c\<bar> \<le> ?s"
    by (auto intro!: real_le_rsqrt simp: power2_eq_square [symmetric])
  then have le: "\<bar>a\<bar> \<le> ?l" "\<bar>b\<bar> \<le> ?l" "\<bar>c\<bar> \<le> ?l"
    by linarith+
  have "\<bar>x / ?l\<bar> \<le> 1000" if "\<bar>x\<bar> \<le> ?l" for x
  proof -
    have "\<bar>x / ?l\<bar> = \<bar>x\<bar> / ?l" using l by simp
    also have "\<dots> \<le> 1" using that l by (simp add: divide_le_eq)
    finally show ?thesis by simp
  qed
  then show ?thesis using le by (simp add: n Let_def)
qed

lemma append_mesh_ok:
  assumes "triangles_valid verts inds" "list_all (bounded 1000) verts"
    "int (length verts) \<le> 2 ^ 32"
  shows "\<exists>st'. append_mesh name (verts, inds, semantic) lod_level st = Inr st'"
proof -
  let ?z = "map (\<lambda>_. (0, 0, 0)) verts :: vertex list"
  have m: "length inds mod 3 = 0"
    and r: "\<forall>i \<in> set inds. 0 \<le> i \<and> i < int (length verts)"
    using assms(1) by (simp_all add: triangles_valid_def)
  have "length ?z = length verts" by simp
  from accumulate_spec [OF m r this]
  obtain acc where acc: "accumulate verts inds ?z = Inr acc" by blast
  then have n: "compute_normals verts inds = Inr (map unit_normal acc)"
    by (simp add: compute_normals_def)
  have "\<exists>bs. pack_3f x = Inr bs" if "x \<in> set verts" for x
    using that assms(2) by (intro pack_3f_ok) (simp add: list_all_iff)
  then obtain v_bytes where v: "join_packed pack_3f verts = Inr v_bytes"
    using join_packed_ok [of verts pack_3f] by blast
  have "\<exists>bs. pack_3f x = Inr bs" if "x \<in> set (map unit_normal acc)" for x
  proof -
    from that obtain n where "x = unit_normal n"
      by (auto simp del: unit_normal.simps)
    then show ?thesis
      using unit_normal_bounded [of n] by (intro pack_3f_ok) simp
  qed
  then obtain n_bytes where nb: "join_packed pack_3f (map unit_normal acc) = Inr n_bytes"
    using join_packed_ok [of "map unit_normal acc" pack_3f] by blast
  have "\<exists>bs. pack_I i = Inr bs" if "i \<in> set inds" for i
    using that r assms(3) by (intro pack_I_ok) auto
  then obtain i_bytes where i: "join_packed pack_I inds = Inr i_bytes"
    using join_packed_ok [of inds pack_I] by blast
  show ?thesis
    by (simp add: append_mesh_def n v nb i Let_def)
qed

subsection \<open>The stores stay valid and bounded\<close>

lemma create_box_good:
  assumes "\<bar>w\<bar> / 2 + \<bar>tx\<bar> \<le> B" "\<bar>h\<bar> / 2 + \<bar>ty\<bar> \<le> B" "\<bar>d\<bar> / 2 + \<bar>tz\<bar> \<le> B"
  shows "good_box B (create_box w h d tx ty tz)"
proof -
  have x: "\<bar>- (w / 2) + tx\<bar> \<le> B" "\<bar>w / 2 + tx\<bar> \<le> B"
    using assms(1) by (simp_all add: abs_le_iff) (linarith+)
  have y: "\<bar>- (h / 2) + ty\<bar> \<le> B" "\<bar>h / 2 + ty\<bar> \<le> B"
    using assms(2) by (simp_all add: abs_le_iff) (linarith+)
  have z: "\<bar>- (d / 2) + tz\<bar> \<le> B" "\<bar>d / 2 + tz\<bar> \<le> B"
    using assms(3) by (simp_all add: abs_le_iff) (linarith+)
  show ?thesis
    using x y z by (simp add: good_box_def create_box_def Let_def)
qed

lemma add_good:
  assumes "good_box B m" "store_good B s"
  shows "store_good B (add m s)"
proof -
  have m: "snd m = box_indices" "length (fst m) = 8" "list_all (bounded B) (fst m)"
    using assms(1) by (simp_all add: good_box_def)
  have s: "length (snd s) mod 3 = 0" "\<forall>i \<in> set (snd s). 0 \<le> i \<and> i < int (length (fst s))"
    "list_all (bounded B) (fst s)"
    using assms(2) by (simp_all add: store_good_def triangles_valid_def)
  have l: "length (snd (add m s)) mod 3 = 0"
    using s(1) by (simp add: add_snd m(1) box_indices_def) presburger
  have i: "\<forall>i \<in> set (snd (add m s)). 0 \<le> i \<and> i < int (length (fst (add m s)))"
    using s(2) box_indices_range by (auto simp: add_snd add_fst m(1) m(2))
  have b: "list_all (bounded B) (fst (add m s))"
    using s(3) m(3) by (simp add: add_fst)
  show ?thesis
    using l i b by (simp add: store_good_def triangles_valid_def)
qed

lemma fold_add_good:
  assumes "\<And>x. x \<in> set xs \<Longrightarrow> good_box B (g x)" "store_good B s"
  shows "store_good B (fold (\<lambda>x. add (g x)) xs s)"
  by (rule fold_invariant [where Q = "\<lambda>x. good_box B (g x)"])
     (auto intro: assms add_good)

lemma fold2_add_good:
  assumes "\<And>x y. x \<in> set xs \<Longrightarrow> y \<in> set ys \<Longrightarrow> good_box B (g x y)" "store_good B s"
  shows "store_good B (fold (\<lambda>x. fold (\<lambda>y. add (g x y)) ys) xs s)"
  by (rule fold_invariant [where Q = "\<lambda>x. \<forall>y \<in> set ys. good_box B (g x y)"])
     (auto intro: assms fold_add_good)

lemma py_range_set: "x \<in> set (py_range n) \<longleftrightarrow> 0 \<le> x \<and> x < n"
  by (auto simp: py_range_def)

lemma grid_offset:
  assumes "0 \<le> g" "g \<le> m" "0 < m"
  shows "0 \<le> real_of_int g * (20 / real_of_int m)" "real_of_int g * (20 / real_of_int m) \<le> 20"
proof -
  show "0 \<le> real_of_int g * (20 / real_of_int m)"
    using assms by simp
  have "real_of_int g \<le> real_of_int m" using assms(2) by simp
  then have "real_of_int g * 20 \<le> 20 * real_of_int m" by simp
  then show "real_of_int g * (20 / real_of_int m) \<le> 20"
    using assms(3) by (simp add: pos_divide_le_eq)
qed

lemma grid_spacing:
  assumes "n \<noteq> (1::int)"
  shows "\<bar>20 / real_of_int (n - 1)\<bar> \<le> 20"
proof -
  have "1 \<le> \<bar>n - 1\<bar>" using assms by linarith
  then have "1 \<le> \<bar>real_of_int (n - 1)\<bar>" by (metis of_int_1_le_iff of_int_abs)
  then have "20 / \<bar>real_of_int (n - 1)\<bar> \<le> 20 / 1"
    by (intro divide_left_mono) simp_all
  then show ?thesis by simp
qed

lemma build_structure_stores:
  "n \<noteq> 1 \<Longrightarrow> build_structure p n =
     Inr (groups_of (structure_stores p n (building_width p / real_of_int (n - 1))))"
  by (simp add: build_structure_def py_truediv_def structure_stores_def groups_of_def Let_def)

text \<open>The boxes of the source's parameters stay far inside the binary32 range.\<close>

lemma source_slab_good:
  assumes "f \<in> set (py_range 5)"
  shows "good_box 1000 (slab_box source_params (real_of_int f * floor_height source_params))"
    "good_box 1000 (spatial_box source_params (real_of_int f * floor_height source_params))"
proof -
  have f: "0 \<le> real_of_int f" "real_of_int f \<le> 4"
    using assms by (simp_all add: py_range_set)
  show "good_box 1000 (slab_box source_params (real_of_int f * floor_height source_params))"
    unfolding slab_box_def using f
    by (intro create_box_good) (simp_all add: source_params_def)
  show "good_box 1000 (spatial_box source_params (real_of_int f * floor_height source_params))"
    unfolding spatial_box_def using f
    by (intro create_box_good) (simp_all add: source_params_def)
qed

lemma source_core_good:
  assumes "f \<in> set (py_range 4)"
  shows "good_box 1000 (core_box source_params f)" "good_box 1000 (wall_box source_params f)"
proof -
  have f: "0 \<le> real_of_int f" "real_of_int f \<le> 3"
    using assms by (simp_all add: py_range_set)
  show "good_box 1000 (core_box source_params f)"
    unfolding core_box_def Let_def using f
    by (intro create_box_good) (simp_all add: source_params_def)
  show "good_box 1000 (wall_box source_params f)"
    unfolding wall_box_def Let_def using f
    by (intro create_box_good) (simp_all add: source_params_def)
qed

lemma source_column_good:
  assumes "f \<in> set (py_range 5)" "gx \<in> set (py_range n)" "gz \<in> set (py_range n)" "n \<noteq> 1"
  shows "good_box 1000 (column_box source_params (20 / real_of_int (n - 1))
           (real_of_int f * floor_height source_params) gx gz)"
proof -
  define sp where "sp = 20 / real_of_int (n - 1)"
  have f: "0 \<le> real_of_int f" "real_of_int f \<le> 4"
    using assms(1) by (simp_all add: py_range_set)
  have g: "0 \<le> gx" "gx \<le> n - 1" "0 \<le> gz" "gz \<le> n - 1" "0 < n - 1"
    using assms(2-4) by (auto simp: py_range_set)
  have x: "0 \<le> real_of_int gx * sp" "real_of_int gx * sp \<le> 20"
    unfolding sp_def using g(1) g(2) g(5) by (rule grid_offset)+
  have z: "0 \<le> real_of_int gz * sp" "real_of_int gz * sp \<le> 20"
    unfolding sp_def using g(3) g(4) g(5) by (rule grid_offset)+
  have "good_box 1000 (create_box (4 / 10) (35 / 10) (4 / 10)
      (- 20 / 2 + real_of_int gx * sp) (real_of_int f * (35 / 10) + 35 / 10 / 2)
      (- 20 / 2 + real_of_int gz * sp))"
  proof (rule create_box_good)
    show "\<bar>4 / 10 :: real\<bar> / 2 + \<bar>- 20 / 2 + real_of_int gx * sp\<bar> \<le> 1000"
      using x by linarith
    show "\<bar>35 / 10 :: real\<bar> / 2 + \<bar>real_of_int f * (35 / 10) + 35 / 10 / 2\<bar> \<le> 1000"
      using f by linarith
    show "\<bar>4 / 10 :: real\<bar> / 2 + \<bar>- 20 / 2 + real_of_int gz * sp\<bar> \<le> 1000"
      using z by linarith
  qed
  then show ?thesis
    by (simp add: column_box_def source_params_def Let_def sp_def)
qed

lemma beam_centre_bound:
  fixes a s :: real
  assumes "0 \<le> a" "a \<le> 20" "\<bar>s\<bar> \<le> 20"
  shows "\<bar>s\<bar> / 2 + \<bar>(- 20 / 2 + a + (- 20 / 2 + a + s)) / 2\<bar> \<le> 1000"
proof -
  have b: "- 20 \<le> s" "s \<le> 20"
    using assms(3) by linarith+
  have "(- 20 / 2 + a + (- 20 / 2 + a + s)) / 2 \<le> 30"
    "- 30 \<le> (- 20 / 2 + a + (- 20 / 2 + a + s)) / 2"
    using assms(1,2) b by simp_all
  then have "\<bar>(- 20 / 2 + a + (- 20 / 2 + a + s)) / 2\<bar> \<le> 30"
    by (simp add: abs_le_iff)
  moreover have "\<bar>s\<bar> / 2 \<le> 10"
    using assms(3) by simp
  ultimately show ?thesis by linarith
qed

lemma source_beam_good:
  assumes "f \<in> set (py_range 5)" "gz \<in> set (py_range n)" "gx \<in> set (py_range (n - 1))"
    "n \<noteq> 1"
  shows "good_box 1000 (beam_x_box source_params (20 / real_of_int (n - 1))
           (real_of_int f * floor_height source_params) gz gx)"
proof -
  define sp where "sp = 20 / real_of_int (n - 1)"
  have f: "0 \<le> real_of_int f" "real_of_int f \<le> 4"
    using assms(1) by (simp_all add: py_range_set)
  have g: "0 \<le> gx" "gx \<le> n - 1" "0 \<le> gz" "gz \<le> n - 1" "0 < n - 1"
    using assms(2-4) by (auto simp: py_range_set)
  have x: "0 \<le> real_of_int gx * sp" "real_of_int gx * sp \<le> 20"
    unfolding sp_def using g(1) g(2) g(5) by (rule grid_offset)+
  have z: "0 \<le> real_of_int gz * sp" "real_of_int gz * sp \<le> 20"
    unfolding sp_def using g(3) g(4) g(5) by (rule grid_offset)+
  have s: "\<bar>sp\<bar> \<le> 20"
    unfolding sp_def using assms(4) by (rule grid_spacing)
  have "good_box 1000 (beam_x_box source_params sp
           (real_of_int f * floor_height source_params) gz gx)"
    unfolding beam_x_box_def Let_def
  proof (rule create_box_good, goal_cases)
    case 1
    show ?case
      using beam_centre_bound [OF x s] by (simp add: source_params_def)
  next
    case 2
    show ?case
      using f by (simp add: source_params_def)
  next
    case 3
    have "\<bar>4 / 10 :: real\<bar> / 2 + \<bar>- 20 / 2 + real_of_int gz * sp\<bar> \<le> 1000"
      using z by linarith
    then show ?case
      by (simp add: source_params_def)
  qed
  then show ?thesis
    by (simp only: sp_def)
qed

lemma store_good_empty: "store_good B ([], [])"
  by (simp add: store_good_def triangles_valid_def)

lemma floor_v3_good:
  assumes "f \<in> set (py_range 5)" "n \<noteq> 1" "stores_good 1000 st"
  shows "stores_good 1000 (floor_v3 source_params n (20 / real_of_int (n - 1)) f st)"
proof -
  let ?y = "real_of_int f * floor_height source_params"
  let ?sp = "20 / real_of_int (n - 1)"
  have st: "store_good 1000 (slabs st)" "store_good 1000 (cols st)"
    "store_good 1000 (beams st)" "store_good 1000 (spatial st)"
    "store_good 1000 (core st)" "store_good 1000 (walls st)"
    using assms(3) by (simp_all add: stores_good_def)
  have a: "store_good 1000 (add (slab_box source_params ?y) (slabs st))"
    using source_slab_good(1) [OF assms(1)] st(1) by (rule add_good)
  have b: "store_good 1000 (add (spatial_box source_params ?y) (spatial st))"
    using source_slab_good(2) [OF assms(1)] st(4) by (rule add_good)
  have c: "store_good 1000
      (fold (\<lambda>gx. fold (\<lambda>gz. add (column_box source_params ?sp ?y gx gz)) (py_range n))
         (py_range n) (cols st))"
    using st(2) by (intro fold2_add_good source_column_good assms(1,2))
  have d: "store_good 1000
      (fold (\<lambda>gz. fold (\<lambda>gx. add (beam_x_box source_params ?sp ?y gz gx)) (py_range (n - 1)))
         (py_range n) (beams st))"
    using st(3) by (intro fold2_add_good source_beam_good assms(1,2))
  show ?thesis
    using a b c d st
    by (simp add: stores_good_def floor_v3_sel)
qed

lemma source_floors: "floors source_params = 5" "building_width source_params = 20"
  by (simp_all add: source_params_def)

lemma structure_stores_good:
  assumes "n \<noteq> 1"
  shows "stores_good 1000 (structure_stores source_params n (20 / real_of_int (n - 1)))"
proof -
  let ?sp = "20 / real_of_int (n - 1)"
  let ?st = "fold (floor_v3 source_params n ?sp) (py_range 5) stores_init"
  have i: "stores_good 1000 stores_init"
    by (simp add: stores_good_def stores_init_def store_good_empty)
  have f: "stores_good 1000 ?st"
  proof (rule fold_invariant [where Q = "\<lambda>f. f \<in> set (py_range 5)"])
    show "x \<in> set (py_range 5)" if "x \<in> set (py_range 5)" for x
      by (rule that)
    show "stores_good 1000 stores_init"
      by (rule i)
    show "stores_good 1000 (floor_v3 source_params n ?sp x s)"
      if "x \<in> set (py_range 5)" "stores_good 1000 s" for x s
      using that(1) assms that(2) by (rule floor_v3_good)
  qed
  then have s: "store_good 1000 (slabs ?st)" "store_good 1000 (cols ?st)"
    "store_good 1000 (beams ?st)" "store_good 1000 (spatial ?st)"
    "store_good 1000 (core ?st)" "store_good 1000 (walls ?st)"
    by (simp_all add: stores_good_def)
  have c: "store_good 1000 (fold (\<lambda>f. add (core_box source_params f)) (py_range 4) (core ?st))"
    using s(5) by (intro fold_add_good source_core_good(1))
  have w: "store_good 1000 (fold (\<lambda>f. add (wall_box source_params f)) (py_range 4) (walls ?st))"
    using s(6) by (intro fold_add_good source_core_good(2))
  show ?thesis
    using s c w
    by (simp add: structure_stores_def source_floors Let_def stores_good_def)
qed

lemma structure_stores_counts:
  "holds_boxes (slabs (structure_stores p n sp)) (nat (floors p))
   \<and> holds_boxes (cols (structure_stores p n sp)) (nat (floors p - 1) * (nat n * nat n))
   \<and> holds_boxes (beams (structure_stores p n sp)) (nat (floors p - 1) * (nat n * nat (n - 1)))
   \<and> holds_boxes (core (structure_stores p n sp)) (nat (floors p - 1))
   \<and> holds_boxes (walls (structure_stores p n sp)) (nat (floors p - 1))
   \<and> holds_boxes (spatial (structure_stores p n sp)) (nat (floors p))"
proof -
  define st where "st = fold (floor_v3 p n sp) (py_range (floors p)) stores_init"
  have i: "holds_boxes (slabs stores_init) 0" "holds_boxes (spatial stores_init) 0"
    "holds_boxes (cols stores_init) 0" "holds_boxes (beams stores_init) 0"
    by (simp_all add: stores_init_def holds_empty)
  from floors_v3_holds [OF i, of p n sp "py_range (floors p)"]
  have f: "holds_boxes (slabs st) (nat (floors p))"
    "holds_boxes (spatial st) (nat (floors p))"
    "holds_boxes (cols st) (nat (floors p - 1) * (nat n * nat n))"
    "holds_boxes (beams st) (nat (floors p - 1) * (nat n * nat (n - 1)))"
    "core st = ([], [])" "walls st = ([], [])"
    by (simp_all add: st_def py_range_length structural_floors stores_init_def)
  have cr: "holds_boxes (fold (\<lambda>f. add (core_box p f)) (py_range (floors p - 1)) (core st))
      (0 + length (py_range (floors p - 1)))"
    unfolding f(5) using boxes_are_boxes(8) holds_empty by (rule fold_add_holds)
  have wa: "holds_boxes (fold (\<lambda>f. add (wall_box p f)) (py_range (floors p - 1)) (walls st))
      (0 + length (py_range (floors p - 1)))"
    unfolding f(6) using boxes_are_boxes(7) holds_empty by (rule fold_add_holds)
  show ?thesis
    using f(1-4) cr wa
    by (simp add: structure_stores_def Let_def st_def [symmetric] py_range_length)
qed

lemma append_all_ok:
  assumes "list_all group_ok gs"
  shows "\<exists>st'. append_all gs lod_level st = Inr st'"
  using assms
proof (induction gs arbitrary: st)
  case Nil
  then show ?case by simp
next
  case (Cons g gs)
  obtain name verts inds semantic where g: "g = (name, verts, inds, semantic)"
    by (cases g) auto
  have "triangles_valid verts inds" "list_all (bounded 1000) verts"
    "int (length verts) \<le> 2 ^ 32"
    using Cons.prems by (simp_all add: g group_ok_def)
  then obtain st1 where s: "append_mesh name (verts, inds, semantic) lod_level st = Inr st1"
    using append_mesh_ok by blast
  obtain st' where "append_all gs lod_level st1 = Inr st'"
    using Cons.IH Cons.prems by auto
  then show ?case by (simp add: g s)
qed

lemma small_store_ok:
  assumes "store_good 1000 s" "holds_boxes s k" "k \<le> 4000000"
  shows "group_ok (name, fst s, snd s, semantic)"
proof -
  have "length (fst s) = 8 * k" using assms(2) by (simp add: holds_boxes_def)
  then have "int (length (fst s)) \<le> 2 ^ 32" using assms(3) by simp
  then show ?thesis using assms(1) by (simp add: group_ok_def store_good_def)
qed

lemma grid_count:
  assumes "n \<le> 1000"
  shows "nat n * nat n \<le> 1000000" "nat n * nat (n - 1) \<le> 1000000"
proof -
  have a: "nat n \<le> 1000" "nat (n - 1) \<le> 1000" using assms by simp_all
  show "nat n * nat n \<le> 1000000"
    using mult_le_mono [OF a(1) a(1)] by simp
  show "nat n * nat (n - 1) \<le> 1000000"
    using mult_le_mono [OF a(1) a(2)] by simp
qed

lemma source_groups_ok:
  assumes "n \<noteq> 1" "n \<le> 1000"
  shows "list_all group_ok (groups_of (structure_stores source_params n (20 / real_of_int (n - 1))))"
proof -
  let ?st = "structure_stores source_params n (20 / real_of_int (n - 1))"
  have g: "store_good 1000 (slabs ?st)" "store_good 1000 (cols ?st)"
    "store_good 1000 (beams ?st)" "store_good 1000 (spatial ?st)"
    "store_good 1000 (core ?st)" "store_good 1000 (walls ?st)"
    using structure_stores_good [OF assms(1)] by (simp_all add: stores_good_def)
  have c: "holds_boxes (slabs ?st) 5" "holds_boxes (cols ?st) (4 * (nat n * nat n))"
    "holds_boxes (beams ?st) (4 * (nat n * nat (n - 1)))" "holds_boxes (core ?st) 4"
    "holds_boxes (walls ?st) 4" "holds_boxes (spatial ?st) 5"
    using structure_stores_counts [of source_params n "20 / real_of_int (n - 1)"]
    by (simp_all add: source_floors)
  note n = grid_count [OF assms(2)]
  have "group_ok (''Slabs'', fst (slabs ?st), snd (slabs ?st), ''structure'')"
    using g(1) c(1) by (rule small_store_ok) simp
  moreover have "group_ok (''Columns'', fst (cols ?st), snd (cols ?st), ''structure'')"
    using g(2) c(2) by (rule small_store_ok) (use n in simp)
  moreover have "group_ok (''Beams'', fst (beams ?st), snd (beams ?st), ''structure'')"
    using g(3) c(3) by (rule small_store_ok) (use n in simp)
  moreover have "group_ok (''Core'', fst (core ?st), snd (core ?st), ''structure'')"
    using g(5) c(4) by (rule small_store_ok) simp
  moreover have "group_ok (''Walls'', fst (walls ?st), snd (walls ?st), ''structure'')"
    using g(6) c(5) by (rule small_store_ok) simp
  moreover have "group_ok (''SpatialZones'', fst (spatial ?st), snd (spatial ?st), ''spatial'')"
    using g(4) c(6) by (rule small_store_ok) simp
  ultimately show ?thesis
    by (simp add: groups_of_def)
qed

lemma generation_returns:
  assumes "grid_L0 \<noteq> 1" "grid_L0 \<le> 1000" "grid_L1 \<noteq> 1" "grid_L1 \<le> 1000"
  shows "\<exists>doc. generate_v3 source_params grid_L0 grid_L1 = Inr doc"
proof -
  let ?lod0 = "groups_of (structure_stores source_params grid_L0
      (20 / real_of_int (grid_L0 - 1)))"
  let ?lod1 = "groups_of (structure_stores source_params grid_L1
      (20 / real_of_int (grid_L1 - 1)))"
  have b: "build_structure source_params grid_L0 = Inr ?lod0"
    "build_structure source_params grid_L1 = Inr ?lod1"
    using assms(1,3) by (simp_all add: build_structure_stores source_floors)
  obtain st1 where s1: "append_all ?lod0 0 packer_init = Inr st1"
    using append_all_ok [OF source_groups_ok [OF assms(1,2)]] by blast
  obtain st2 where s2: "append_all ?lod1 1 st1 = Inr st2"
    using append_all_ok [OF source_groups_ok [OF assms(3,4)]] by blast
  have "generate_v3 source_params grid_L0 grid_L1 = Inr (emit_gltf st2)"
    by (simp only: generate_v3_def b s1 s2 sum.case)
  then show ?thesis by (rule exI)
qed

lemma source_run_returns: "\<exists>doc. generate_v3 source_params 5 3 = Inr doc"
  by (rule generation_returns) simp_all

subsection \<open>The document of the source's run\<close>

lemma generate_v3_result:
  assumes "generate_v3 p grid_L0 grid_L1 = Inr doc"
  obtains lod0 lod1 st1 st2 where
    "build_structure p grid_L0 = Inr lod0" "build_structure p grid_L1 = Inr lod1"
    "append_all lod0 0 packer_init = Inr st1" "append_all lod1 1 st1 = Inr st2"
    "doc = emit_gltf st2"
  using assms unfolding generate_v3_def
  by (auto split: sum.splits)

lemma build_structure_length:
  "build_structure p n = Inr groups \<Longrightarrow> length groups = 6"
  by (auto simp: build_structure_def Let_def split: sum.splits)

lemma generate_v3_exact:
  assumes "generate_v3 p grid_L0 grid_L1 = Inr doc"
  shows "byte_exact doc" "length (g_bufferViews doc) = 36" "length (g_accessors doc) = 36"
    "length (g_meshes doc) = 12" "length (g_nodes doc) = 12"
    "list_all no_bounds (g_accessors doc)"
proof -
  from assms obtain lod0 lod1 st1 st2 where r:
    "build_structure p grid_L0 = Inr lod0" "build_structure p grid_L1 = Inr lod1"
    "append_all lod0 0 packer_init = Inr st1" "append_all lod1 1 st1 = Inr st2"
    "doc = emit_gltf st2"
    by (rule generate_v3_result)
  have "packer_inv st1"
    using r(3) packer_init_inv by (rule append_all_inv)
  with r(4) have "packer_inv st2"
    by (rule append_all_inv)
  then show "byte_exact doc"
    unfolding r(5) by (rule packer_inv_exact)
  have l: "length lod0 = 6" "length lod1 = 6"
    using r(1,2) by (simp_all add: build_structure_length)
  show "length (g_bufferViews doc) = 36" "length (g_accessors doc) = 36"
    "length (g_meshes doc) = 12" "length (g_nodes doc) = 12"
    using append_all_counts [OF r(3)] append_all_counts [OF r(4)] l
    by (simp_all add: r(5) emit_gltf_def packer_init_def)
  have "list_all no_bounds (accessors packer_init)"
    by (simp add: packer_init_def)
  with r(3) have "list_all no_bounds (accessors st1)"
    by (rule append_all_no_bounds)
  with r(4) have "list_all no_bounds (accessors st2)"
    by (rule append_all_no_bounds)
  then show "list_all no_bounds (g_accessors doc)"
    by (simp add: r(5) emit_gltf_def)
qed

lemma source_document:
  "\<exists>doc. generate_v3 source_params 5 3 = Inr doc \<and> byte_exact doc
     \<and> length (g_bufferViews doc) = 36 \<and> length (g_nodes doc) = 12
     \<and> list_all no_bounds (g_accessors doc)"
proof -
  obtain doc where d: "generate_v3 source_params 5 3 = Inr doc"
    using source_run_returns by blast
  show ?thesis
    using d generate_v3_exact [OF d] by blast
qed

section \<open>Determinism\<close>



end
